theory Spec2Isabelle
  imports Main
begin

section \<open>Python values\<close>

text \<open>
  A Python \<open>str\<close> is a sequence of Unicode code points, and \<open>len\<close>, slicing and the
  format widths of \<open>pdf_extractor.py\<close> count code points. A string is therefore a list
  of code points (\<open>nat\<close>); \<open>ustr\<close> embeds an ASCII literal, and the Korean literals of
  the source are written by their code points.
\<close>

type_synonym pystr = "nat list"

definition ustr :: "string \<Rightarrow> pystr" where
  "ustr s = map of_char s"

definition nl :: pystr where
  "nl = [10]"

text \<open>\<open>sep.join(xs)\<close>.\<close>

fun join :: "pystr \<Rightarrow> pystr list \<Rightarrow> pystr" where
  "join sep [] = []"
| "join sep [x] = x"
| "join sep (x # y # ys) = x @ sep @ join sep (y # ys)"

text \<open>
  \<open>str.isspace\<close> on one code point: the code points Python classifies as whitespace.
\<close>

definition py_isspace :: "nat \<Rightarrow> bool" where
  "py_isspace c \<longleftrightarrow>
     (9 \<le> c \<and> c \<le> 13) \<or> (28 \<le> c \<and> c \<le> 32) \<or> c = 133 \<or> c = 160 \<or> c = 5760 \<or>
     (8192 \<le> c \<and> c \<le> 8202) \<or> c = 8232 \<or> c = 8233 \<or> c = 8239 \<or> c = 8287 \<or> c = 12288"

text \<open>\<open>s.strip()\<close>: leading and trailing whitespace removed.\<close>

definition strip :: "pystr \<Rightarrow> pystr" where
  "strip s = rev (dropWhile py_isspace (rev (dropWhile py_isspace s)))"

text \<open>\<open>s.startswith(p)\<close> and \<open>s.endswith(p)\<close>.\<close>

definition startswith :: "pystr \<Rightarrow> pystr \<Rightarrow> bool" where
  "startswith s p \<longleftrightarrow> take (length p) s = p"

definition endswith :: "pystr \<Rightarrow> pystr \<Rightarrow> bool" where
  "endswith s p \<longleftrightarrow> length p \<le> length s \<and> drop (length s - length p) s = p"

text \<open>
  \<open>s.replace(old, new)\<close>: every non-overlapping occurrence of \<open>old\<close>, scanning from the
  left, is replaced. With an empty \<open>old\<close> Python puts \<open>new\<close> before every character and
  at the end.
\<close>

function replace :: "pystr \<Rightarrow> pystr \<Rightarrow> pystr \<Rightarrow> pystr" where
  "replace s old new =
     (if old = [] then new @ concat (map (\<lambda>c. c # new) s)
      else if s = [] then []
      else if startswith s old then new @ replace (drop (length old) s) old new
      else hd s # replace (tl s) old new)"
  by pat_completeness auto
termination
  by (relation "measure (\<lambda>(s, old, new). length s)") auto

declare replace.simps [simp del]

text \<open>
  \<open>s.encode("utf-8")\<close>, which a file opened with \<open>encoding="utf-8"\<close> applies to every
  string written to it: the codec refuses the surrogate code points U+D800 to U+DFFF
  (\<open>UnicodeEncodeError\<close>) and encodes every other string.
\<close>

definition surrogate :: "nat \<Rightarrow> bool" where
  "surrogate c \<longleftrightarrow> 55296 \<le> c \<and> c \<le> 57343"

definition utf8_ok :: "pystr \<Rightarrow> bool" where
  "utf8_ok s \<longleftrightarrow> list_all (\<lambda>c. \<not> surrogate c) s"

section \<open>Exceptions and the libraries\<close>

text \<open>
  An exception is a value: its class and the string \<open>str(e)\<close>. The handlers of the
  source tell \<open>ImportError\<close> from every other class (\<open>except ImportError\<close> before
  \<open>except Exception\<close>); \<open>OSError\<close> (with its subclasses) and \<open>UnicodeEncodeError\<close> are
  what the file operations of \<open>save_results\<close> and \<open>main\<close> raise. Every exception of the
  model is an instance of \<open>Exception\<close>; \<open>KeyboardInterrupt\<close> and \<open>SystemExit\<close>, which no
  handler of the source catches, are not library failures and are not modelled.
\<close>

datatype exn_class = ImportError | OSError | UnicodeEncodeError | OtherException

datatype exn = Exn (exn_class: exn_class) (exn_str: pystr)

datatype 'a outcome = Raises exn | Returns 'a

type_synonym path = "pystr list"

text \<open>A table as pdfplumber returns it: rows of cells, a cell a string or \<open>None\<close>.\<close>

type_synonym table = "pystr option list list"

text \<open>
  What PyMuPDF does with one document: iterating it yields the pages in order, and
  loading a page and calling \<open>get_text("text")\<close> on it returns the page's text or
  raises; \<open>close()\<close> returns or raises.
\<close>

record fitz_doc =
  doc_pages :: "pystr outcome list"
  doc_close :: "unit outcome"

text \<open>
  What pdfplumber does with one document: \<open>pdf.pages\<close> returns the pages or raises;
  on each page \<open>extract_text()\<close> returns a string or \<open>None\<close>, or raises, and
  \<open>extract_tables()\<close> returns a list of tables or raises. Leaving the \<open>with\<close> block
  releases the document; the release is taken to return, on every path.
\<close>

record plumber_page =
  extract_text :: "pystr option outcome"
  extract_tables :: "table list outcome"

record plumber_pdf =
  pdf_pages :: "plumber_page list outcome"

text \<open>
  The libraries and the operating system as the extractors see them. An image is a
  handle (\<open>nat\<close>); \<open>image_to_string\<close> depends on the Tesseract command configured
  when it is called, on the image, and on the \<open>lang\<close> and \<open>config\<close> arguments.
\<close>

record libs =
  fitz_open :: "path \<Rightarrow> fitz_doc outcome"
  pdfplumber_open :: "path \<Rightarrow> plumber_pdf outcome"
  import_pytesseract :: "unit outcome"
  import_pdf2image :: "unit outcome"
  tesseract_cmd :: pystr
  os_path_exists :: "pystr \<Rightarrow> bool"
  convert_from_path :: "path \<Rightarrow> nat list outcome"
  image_to_string :: "pystr \<Rightarrow> nat \<Rightarrow> pystr \<Rightarrow> pystr \<Rightarrow> pystr outcome"

section \<open>Extraction results\<close>

text \<open>
  The dictionaries the extractors build. The key \<open>"text"\<close> is the field \<open>full_text\<close> of a
  result and \<open>ptext\<close> of a page entry, \<open>"method"\<close> is \<open>method_str\<close> and \<open>"note"\<close> is
  \<open>ocr_note\<close> (the keys themselves are Isar keywords). A key that only some of the extractors set (\<open>"tables"\<close>,
  \<open>"note"\<close>, \<open>"table_count"\<close>) is an option: \<open>None\<close> where the dictionary has no such
  key. In \<open>error\<close>, \<open>None\<close> is Python's \<open>None\<close>.
\<close>

record page_entry =
  page :: nat
  ptext :: pystr
  char_count :: nat
  table_count :: "nat option"

record result =
  method_str :: pystr
  full_text :: pystr
  pages :: "page_entry list"
  tables :: "(nat \<times> table list) list option"
  success :: bool
  error :: "pystr option"
  ocr_note :: "pystr option"

section \<open>extract_with_pymupdf\<close>

definition pymupdf_init :: result where
  "pymupdf_init =
     \<lparr>method_str = ustr ''PyMuPDF ('' @ [51649, 51217] @ ustr '' '' @ [52628, 52636] @ ustr '')'',
      full_text = [], pages = [], tables = None, success = False, error = None,
      ocr_note = None\<rparr>"

text \<open>
  The \<open>for page_num, page in enumerate(doc)\<close> loop. It returns the exception that left
  the loop, if any, with \<open>all_text\<close> and \<open>result\<close> as they are at that moment: the
  entries appended before the exception stay in \<open>result["pages"]\<close>.
\<close>

fun pymupdf_loop ::
  "pystr outcome list \<Rightarrow> nat \<Rightarrow> pystr list \<Rightarrow> result \<Rightarrow> exn option \<times> pystr list \<times> result"
where
  "pymupdf_loop [] page_num all_text result = (None, all_text, result)"
| "pymupdf_loop (Raises e # rest) page_num all_text result = (Some e, all_text, result)"
| "pymupdf_loop (Returns page_text # rest) page_num all_text result =
     pymupdf_loop rest (page_num + 1) (all_text @ [page_text])
       (result\<lparr>pages := pages result @
          [\<lparr>page = page_num + 1, ptext = page_text, char_count = length page_text,
            table_count = None\<rparr>]\<rparr>)"

text \<open>
  The \<open>try\<close> block from \<open>fitz.open\<close> to \<open>doc.close()\<close>, then the handler
  \<open>except Exception as e: result["error"] = str(e)\<close>.
\<close>

definition extract_with_pymupdf :: "libs \<Rightarrow> path \<Rightarrow> result" where
  "extract_with_pymupdf L pdf_path =
     (let result = pymupdf_init in
      case fitz_open L pdf_path of
        Raises e \<Rightarrow> result\<lparr>error := Some (exn_str e)\<rparr>
      | Returns doc \<Rightarrow>
          (case pymupdf_loop (doc_pages doc) 0 [] result of
             (Some e, all_text, result) \<Rightarrow> result\<lparr>error := Some (exn_str e)\<rparr>
           | (None, all_text, result) \<Rightarrow>
               (let result = result\<lparr>full_text := join nl all_text\<rparr>;
                    result = result\<lparr>success := True\<rparr>
                in case doc_close doc of
                     Raises e \<Rightarrow> result\<lparr>error := Some (exn_str e)\<rparr>
                   | Returns u \<Rightarrow> result)))"

section \<open>extract_with_pdfplumber\<close>

definition pdfplumber_init :: result where
  "pdfplumber_init =
     \<lparr>method_str = ustr ''pdfplumber ('' @ [51649, 51217] @ ustr '' '' @ [52628, 52636] @ ustr '')'',
      full_text = [], pages = [], tables = Some [], success = False, error = None,
      ocr_note = None\<rparr>"

text \<open>
  The loop over \<open>enumerate(pdf.pages)\<close>. \<open>page.extract_text() or ""\<close> turns \<open>None\<close>
  (and the empty string) into the empty string; \<open>if tables:\<close> holds for a non-empty
  list.
\<close>

fun pdfplumber_loop ::
  "plumber_page list \<Rightarrow> nat \<Rightarrow> pystr list \<Rightarrow> result \<Rightarrow> exn option \<times> pystr list \<times> result"
where
  "pdfplumber_loop [] page_num all_text result = (None, all_text, result)"
| "pdfplumber_loop (pg # rest) page_num all_text result =
     (case extract_text pg of
        Raises e \<Rightarrow> (Some e, all_text, result)
      | Returns t \<Rightarrow>
          (let page_text = (case t of None \<Rightarrow> [] | Some s \<Rightarrow> s);
               all_text = all_text @ [page_text]
           in case extract_tables pg of
                Raises e \<Rightarrow> (Some e, all_text, result)
              | Returns tbls \<Rightarrow>
                  (let result = result\<lparr>pages := pages result @
                         [\<lparr>page = page_num + 1, ptext = page_text,
                           char_count = length page_text,
                           table_count = Some (length tbls)\<rparr>]\<rparr>;
                       result =
                         (if tbls \<noteq> []
                          then result\<lparr>tables :=
                                 map_option (\<lambda>ts. ts @ [(page_num + 1, tbls)]) (tables result)\<rparr>
                          else result)
                   in pdfplumber_loop rest (page_num + 1) all_text result)))"

text \<open>
  The body of the \<open>with\<close> block: the exception that leaves it, if any, and \<open>result\<close>.
\<close>

definition pdfplumber_body :: "plumber_pdf \<Rightarrow> result \<Rightarrow> exn option \<times> result" where
  "pdfplumber_body pdf result =
     (case pdf_pages pdf of
        Raises e \<Rightarrow> (Some e, result)
      | Returns pgs \<Rightarrow>
          (case pdfplumber_loop pgs 0 [] result of
             (Some e, all_text, result) \<Rightarrow> (Some e, result)
           | (None, all_text, result) \<Rightarrow>
               (let result = result\<lparr>full_text := join nl all_text\<rparr>;
                    result = result\<lparr>success := True\<rparr>
                in (None, result))))"

text \<open>
  The \<open>try\<close> block, \<open>with pdfplumber.open(pdf_path) as pdf\<close> around the body, then the
  handler \<open>except Exception as e: result["error"] = str(e)\<close>.
\<close>

definition extract_with_pdfplumber :: "libs \<Rightarrow> path \<Rightarrow> result" where
  "extract_with_pdfplumber L pdf_path =
     (let result = pdfplumber_init in
      case pdfplumber_open L pdf_path of
        Raises e \<Rightarrow> result\<lparr>error := Some (exn_str e)\<rparr>
      | Returns pdf \<Rightarrow>
          (case pdfplumber_body pdf result of
             (Some e, result) \<Rightarrow> result\<lparr>error := Some (exn_str e)\<rparr>
           | (None, result) \<Rightarrow> result))"

section \<open>extract_with_ocr\<close>

definition ocr_init :: result where
  "ocr_init =
     \<lparr>method_str = ustr ''OCR (pytesseract)'',
      full_text = [], pages = [], tables = None, success = False, error = None,
      ocr_note = Some (ustr ''Tesseract OCR'' @ [51060] @ ustr '' '' @
        [49444, 52824, 46104, 50612] @ ustr '' '' @ [51080, 50612, 50556] @ ustr '' '' @
        [54633, 45768, 45796] @ ustr ''.'')\<rparr>"

definition tesseract_paths :: "pystr list" where
  "tesseract_paths =
     [ustr ''C:'' @ [92] @ ustr ''Program Files'' @ [92] @ ustr ''Tesseract-OCR'' @ [92] @
        ustr ''tesseract.exe'',
      ustr ''C:'' @ [92] @ ustr ''Program Files (x86)'' @ [92] @ ustr ''Tesseract-OCR'' @ [92] @
        ustr ''tesseract.exe'']"

text \<open>
  The loop over \<open>tesseract_paths\<close>, which sets \<open>pytesseract.pytesseract.tesseract_cmd\<close>
  to the first path that exists and breaks.
\<close>

fun probe_tesseract :: "(pystr \<Rightarrow> bool) \<Rightarrow> pystr list \<Rightarrow> pystr \<Rightarrow> pystr" where
  "probe_tesseract ex [] cmd = cmd"
| "probe_tesseract ex (p # ps) cmd = (if ex p then p else probe_tesseract ex ps cmd)"

text \<open>The message prefixes of the two handlers that add one.\<close>

definition convert_failed_prefix :: pystr where
  "convert_failed_prefix =
     ustr ''PDF'' @ [47484] @ ustr '' '' @ [51060, 48120, 51648, 47196] @ ustr '' '' @
     [48320, 54872] @ ustr '' '' @ [49892, 54056] @ ustr '' (poppler '' @ [54596, 50836] @
     ustr ''): ''"

definition missing_library_prefix :: pystr where
  "missing_library_prefix =
     [54596, 50836, 54620] @ ustr '' '' @ [46972, 51060, 48652, 47084, 47532, 44032] @
     ustr '' '' @ [50630, 49845, 45768, 45796] @ ustr '': ''"

fun ocr_loop ::
  "(nat \<Rightarrow> pystr outcome) \<Rightarrow> nat list \<Rightarrow> nat \<Rightarrow> pystr list \<Rightarrow> result \<Rightarrow>
     exn option \<times> pystr list \<times> result"
where
  "ocr_loop ocr [] page_num all_text result = (None, all_text, result)"
| "ocr_loop ocr (img # rest) page_num all_text result =
     (case ocr img of
        Raises e \<Rightarrow> (Some e, all_text, result)
      | Returns page_text \<Rightarrow>
          ocr_loop ocr rest (page_num + 1) (all_text @ [page_text])
            (result\<lparr>pages := pages result @
               [\<lparr>page = page_num + 1, ptext = page_text, char_count = length page_text,
                 table_count = None\<rparr>]\<rparr>))"

text \<open>
  The outer \<open>try\<close> block: the exception that leaves it, if any, and \<open>result\<close>. The inner
  \<open>try\<close> around \<open>convert_from_path\<close> catches every exception, sets the error and
  returns \<open>result\<close> from the function, so no exception leaves the block there.
\<close>

definition ocr_try :: "libs \<Rightarrow> path \<Rightarrow> result \<Rightarrow> exn option \<times> result" where
  "ocr_try L pdf_path result =
     (case import_pytesseract L of
        Raises e \<Rightarrow> (Some e, result)
      | Returns u \<Rightarrow>
     (case import_pdf2image L of
        Raises e \<Rightarrow> (Some e, result)
      | Returns u \<Rightarrow>
     (let cmd = probe_tesseract (os_path_exists L) tesseract_paths (tesseract_cmd L) in
      case convert_from_path L pdf_path of
        Raises e \<Rightarrow> (None, result\<lparr>error := Some (convert_failed_prefix @ exn_str e)\<rparr>)
      | Returns images \<Rightarrow>
          (case ocr_loop (\<lambda>img. image_to_string L cmd img (ustr ''kor+eng+rus'') (ustr ''--psm 6''))
                  images 0 [] result of
             (Some e, all_text, result) \<Rightarrow> (Some e, result)
           | (None, all_text, result) \<Rightarrow>
               (let result = result\<lparr>full_text := join nl all_text\<rparr>;
                    result = result\<lparr>success := True\<rparr>
                in (None, result))))))"

text \<open>The handlers \<open>except ImportError\<close> and \<open>except Exception\<close>, in this order.\<close>

definition extract_with_ocr :: "libs \<Rightarrow> path \<Rightarrow> result" where
  "extract_with_ocr L pdf_path =
     (let result = ocr_init in
      case ocr_try L pdf_path result of
        (None, result) \<Rightarrow> result
      | (Some e, result) \<Rightarrow>
          (if exn_class e = ImportError
           then result\<lparr>error := Some (missing_library_prefix @ exn_str e)\<rparr>
           else result\<lparr>error := Some (exn_str e)\<rparr>))"

section \<open>Formatting\<close>

text \<open>\<open>str(n)\<close> for a length: the decimal digits.\<close>

fun digits :: "nat \<Rightarrow> pystr" where
  "digits n = (if n < 10 then [48 + n] else digits (n div 10) @ [48 + n mod 10])"

declare digits.simps [simp del]

text \<open>The \<open>,\<close> option of the format specification: a comma before every group of three
  digits, counted from the right.\<close>

function group3 :: "pystr \<Rightarrow> pystr" where
  "group3 ds =
     (if length ds \<le> 3 then ds
      else group3 (take (length ds - 3) ds) @ [44] @ drop (length ds - 3) ds)"
  by pat_completeness auto
termination
  by (relation "measure length") auto

declare group3.simps [simp del]

definition fmt_commas :: "nat \<Rightarrow> pystr" where
  "fmt_commas n = group3 (digits n)"

text \<open>The alignments \<open><w\<close> and \<open>>w\<close>: padding with spaces up to the width \<open>w\<close>.\<close>

definition ljust :: "nat \<Rightarrow> pystr \<Rightarrow> pystr" where
  "ljust w s = s @ replicate (w - length s) 32"

definition rjust :: "nat \<Rightarrow> pystr \<Rightarrow> pystr" where
  "rjust w s = replicate (w - length s) 32 @ s"

section \<open>Dictionaries and paths\<close>

text \<open>
  A dictionary keeps its keys in insertion order: an association list with distinct
  keys. \<open>d[k] = v\<close> replaces the value of a key that is present, in place, and appends a
  new key at the end.
\<close>

fun dict_set :: "('k \<times> 'v) list \<Rightarrow> 'k \<Rightarrow> 'v \<Rightarrow> ('k \<times> 'v) list" where
  "dict_set [] k v = [(k, v)]"
| "dict_set ((k', v') # kvs) k v =
     (if k' = k then (k, v) # kvs else (k', v') # dict_set kvs k v)"

text \<open>A path is the list of its components; \<open>p.name\<close> is the last one, \<open>str(p)\<close> joins
  them with the separator of the platform.\<close>

definition path_name :: "path \<Rightarrow> pystr" where
  "path_name p = (if p = [] then [] else last p)"

definition OUTPUT_DIR :: path where
  "OUTPUT_DIR = [[52628, 52636, 44208, 44284]]"

definition PDF_DIR :: path where
  "PDF_DIR = [[52280, 44256, 51088, 47308]]"

section \<open>The process and its files\<close>

text \<open>
  What is at the path \<open>OUTPUT_DIR\<close>: nothing, something that is not a directory, or
  a directory. The program only ever creates and truncates files there
  (\<open>open(..., "w")\<close>), so the directory is the sequence of the writes made to it, name
  and content, oldest first; the content of a file is that of the last write to its name.
\<close>

datatype out_entry = Absent | NotADir | Dir "(pystr \<times> pystr) list"

text \<open>
  The state of the process: the names in \<open>PDF_DIR\<close> in the order a scan returns them
  (\<open>None\<close> when nothing is at that path), \<open>OUTPUT_DIR\<close>, the answer of the file system
  to opening a file of a given name in \<open>OUTPUT_DIR\<close> for writing (\<open>None\<close> when it opens
  the file, or the exception \<open>open\<close> raises: a name that is too long for the file
  system or that it cannot represent, a missing permission), the strings printed so far
  (one per call of \<open>print\<close>), the clock (\<open>now_iso k\<close> is what the \<open>k\<close>-th call of
  \<open>datetime.now().isoformat()\<close> returns, \<open>ticks\<close> the calls so far) and the path
  separator of the platform. Standard output is taken to accept every string: its
  encoding and error handler are the platform's.
\<close>

record world =
  pdf_dir :: "pystr list option"
  out_dir :: out_entry
  open_error :: "pystr \<Rightarrow> exn option"
  stdout :: "pystr list"
  now_iso :: "nat \<Rightarrow> pystr"
  ticks :: nat
  os_sep :: pystr

text \<open>
  A call that may raise returns \<open>Inr\<close> with its result, or \<open>Inl\<close> with the exception
  that ended it and the state of the process at that moment.
\<close>

type_synonym 'a raising = "(exn \<times> world) + 'a"

definition print :: "pystr \<Rightarrow> world \<Rightarrow> world" where
  "print s w = w\<lparr>stdout := stdout w @ [s]\<rparr>"

definition path_str :: "world \<Rightarrow> path \<Rightarrow> pystr" where
  "path_str w p = join (os_sep w) p"

text \<open>\<open>OUTPUT_DIR.mkdir(exist_ok=True)\<close>: \<open>FileExistsError\<close> when the path exists and is
  not a directory.\<close>

definition mkdir_exist_ok :: "world \<Rightarrow> world raising" where
  "mkdir_exist_ok w =
     (case out_dir w of
        Absent \<Rightarrow> Inr (w\<lparr>out_dir := Dir []\<rparr>)
      | Dir fs \<Rightarrow> Inr w
      | NotADir \<Rightarrow>
          Inl (Exn OSError
                 (ustr ''[Errno 17] File exists: '' @ [39] @ path_str w OUTPUT_DIR @ [39]), w))"

text \<open>
  \<open>with open(OUTPUT_DIR / name, "w", encoding="utf-8") as f\<close> and the calls of
  \<open>f.write\<close> in its body, \<open>pieces\<close> being the strings written, in order. \<open>open\<close> raises
  what the file system answers, and then nothing is created. Otherwise the file is created
  or truncated, and the pieces are encoded one by one: the first one that cannot be
  encoded raises \<open>UnicodeEncodeError\<close> (of its message the model keeps the reason), and
  leaving the \<open>with\<close> block closes the file with the pieces written before it. The
  piece number \<open>clock_at\<close>, counted from 0, holds the time: the clock is read when that
  piece is built, after the pieces before it have been written.
\<close>

definition write_file :: "pystr \<Rightarrow> pystr list \<Rightarrow> nat \<Rightarrow> world \<Rightarrow> world raising" where
  "write_file name pieces clock_at w =
     (case out_dir w of
        Dir fs \<Rightarrow>
          (case open_error w name of
             Some e \<Rightarrow> Inl (e, w)
           | None \<Rightarrow>
               (let written = takeWhile utf8_ok pieces;
                    w = w\<lparr>out_dir := Dir (fs @ [(name, concat written)])\<rparr>
                in if length written = length pieces
                   then Inr (w\<lparr>ticks := ticks w + 1\<rparr>)
                   else Inl (Exn UnicodeEncodeError (ustr ''surrogates not allowed''),
                             w\<lparr>ticks := ticks w + (if clock_at \<le> length written then 1 else 0)\<rparr>)))
      | Absent \<Rightarrow>
          Inl (Exn OSError
                 (ustr ''[Errno 2] No such file or directory: '' @ [39] @
                  path_str w (OUTPUT_DIR @ [name]) @ [39]), w)
      | NotADir \<Rightarrow>
          Inl (Exn OSError
                 (ustr ''[Errno 20] Not a directory: '' @ [39] @
                  path_str w (OUTPUT_DIR @ [name]) @ [39]), w))"

section \<open>compare_methods\<close>

text \<open>The loop that prints one line per method.\<close>

fun report_loop :: "(pystr \<times> result) list \<Rightarrow> world \<Rightarrow> world" where
  "report_loop [] w = w"
| "report_loop ((method_name, result) # rest) w =
     (let count = length (full_text result);
          status =
            (if success result then [10003] @ ustr '' '' @ [49457, 44277]
             else [10007] @ ustr '' '' @ [49892, 54056] @ ustr '': '' @
                  (case error result of None \<Rightarrow> ustr ''None'' | Some msg \<Rightarrow> msg))
      in report_loop rest
           (print (ustr ''    - '' @ method_str result @ ustr '': '' @ fmt_commas count @
                   [51088] @ ustr '' '' @ [52628, 52636] @ ustr '' '' @ status) w))"

definition compare_methods :: "libs \<Rightarrow> path \<Rightarrow> world \<Rightarrow> (pystr \<times> result) list \<times> world" where
  "compare_methods L pdf_path w =
     (let w = print (nl @ replicate 60 61) w;
          w = print ([54028, 51068] @ ustr '': '' @ path_name pdf_path) w;
          w = print (replicate 60 61) w;
          results = [];
          w = print (ustr ''  [1/3] PyMuPDF'' @ [47196] @ ustr '' '' @ [52628, 52636] @
                     ustr '' '' @ [51473] @ ustr ''...'') w;
          results = dict_set results (ustr ''pymupdf'') (extract_with_pymupdf L pdf_path);
          w = print (ustr ''  [2/3] pdfplumber'' @ [47196] @ ustr '' '' @ [52628, 52636] @
                     ustr '' '' @ [51473] @ ustr ''...'') w;
          results = dict_set results (ustr ''pdfplumber'') (extract_with_pdfplumber L pdf_path);
          w = print (ustr ''  [3/3] OCR '' @ [52628, 52636, 51008] @ ustr '' '' @
                     [48324, 46020] @ ustr '' '' @ [54869, 51064] @ ustr '' '' @ [54596, 50836] @
                     ustr '' (Tesseract/poppler '' @ [54596, 50836] @ ustr '')'') w;
          w = print ([10] @ ustr ''  '' @ [44208, 44284] @ ustr '' '' @ [50836, 50557] @
                     ustr '':'') w;
          w = report_loop results w
      in (results, w))"

section \<open>save_results\<close>

text \<open>The name of the output file, \<open>f"{base_name}_{method_name}.txt"\<close>.\<close>

definition output_name :: "pystr \<Rightarrow> pystr \<Rightarrow> pystr" where
  "output_name base_name method_name = base_name @ ustr ''_'' @ method_name @ ustr ''.txt''"

text \<open>
  The strings written to the output file, one per call of \<open>f.write\<close>, \<open>stamp\<close> being
  the time read for the third.
\<close>

definition file_pieces :: "pystr \<Rightarrow> result \<Rightarrow> pystr \<Rightarrow> pystr list" where
  "file_pieces pdf_name result stamp =
     [ustr ''# '' @ [52628, 52636] @ ustr '' '' @ [48169, 48277] @ ustr '': '' @
        method_str result @ nl,
      ustr ''# '' @ [50896, 48376] @ ustr '' '' @ [54028, 51068] @ ustr '': '' @ pdf_name @ nl,
      ustr ''# '' @ [52628, 52636] @ ustr '' '' @ [49884, 44036] @ ustr '': '' @ stamp @ nl,
      ustr ''# '' @ [52509] @ ustr '' '' @ [47928, 51088] @ ustr '' '' @ [49688] @ ustr '': '' @
        fmt_commas (length (full_text result)) @ [51088] @ nl,
      ustr ''# '' @ [52509] @ ustr '' '' @ [54168, 51060, 51648] @ ustr '': '' @
        digits (length (pages result)) @ [54168, 51060, 51648] @ nl,
      replicate 60 61 @ nl @ nl,
      full_text result]"

text \<open>The line printed after a file has been written.\<close>

definition saved_message :: "pystr \<Rightarrow> pystr" where
  "saved_message output_file =
     ustr ''    '' @ [51200, 51109, 46120] @ ustr '': '' @ output_file"

text \<open>
  The loop over \<open>results.items()\<close>. The condition of the \<open>if\<close> is
  \<open>result["success"] and result["text"].strip()\<close>: a string is true when it is not
  empty. An exception of the file operations leaves the loop and the function.
\<close>

fun save_loop ::
  "pystr \<Rightarrow> pystr \<Rightarrow> (pystr \<times> result) list \<Rightarrow> world \<Rightarrow> world raising"
where
  "save_loop pdf_name base_name [] w = Inr w"
| "save_loop pdf_name base_name ((method_name, result) # rest) w =
     (if success result \<and> strip (full_text result) \<noteq> []
      then
        (let output_file = output_name base_name method_name
         in case write_file output_file
                   (file_pieces pdf_name result (now_iso w (ticks w))) 2 w of
              Inl x \<Rightarrow> Inl x
            | Inr w \<Rightarrow>
                save_loop pdf_name base_name rest
                  (print (saved_message output_file) w))
      else save_loop pdf_name base_name rest w)"

text \<open>\<open>save_results\<close>, called with \<open>OUTPUT_DIR\<close> as its \<open>output_dir\<close>.\<close>

definition save_results :: "pystr \<Rightarrow> (pystr \<times> result) list \<Rightarrow> world \<Rightarrow> world raising" where
  "save_results pdf_name results w =
     (case mkdir_exist_ok w of
        Inl x \<Rightarrow> Inl x
      | Inr w \<Rightarrow>
          (let base_name = replace pdf_name (ustr ''.pdf'') []
           in save_loop pdf_name base_name results w))"

section \<open>main\<close>

text \<open>
  \<open>PDF_DIR.glob("*.pdf")\<close>: the entries of the directory whose name ends with \<open>.pdf\<close>
  (the match of a platform that tells upper from lower case), as paths, in scan order.
\<close>

definition glob_pdf :: "pystr list \<Rightarrow> path list" where
  "glob_pdf names = map (\<lambda>n. PDF_DIR @ [n]) (filter (\<lambda>n. endswith n (ustr ''.pdf'')) names)"

text \<open>\<open>results.get(key, {}).get("text", "")\<close>.\<close>

definition get_text :: "(pystr \<times> result) list \<Rightarrow> pystr \<Rightarrow> pystr" where
  "get_text results key = (case map_of results key of None \<Rightarrow> [] | Some r \<Rightarrow> full_text r)"

text \<open>\<open>pdf_name[:47] + "..." if len(pdf_name) > 50 else pdf_name\<close>.\<close>

definition short_name :: "pystr \<Rightarrow> pystr" where
  "short_name pdf_name =
     (if length pdf_name > 50 then take 47 pdf_name @ ustr ''...'' else pdf_name)"

text \<open>The line \<open>f"{short_name:<50} {pymupdf_chars:>12,} {pdfplumber_chars:>12,}\n"\<close>.\<close>

definition format_row :: "pystr \<Rightarrow> nat \<Rightarrow> nat \<Rightarrow> pystr" where
  "format_row name pymupdf_chars pdfplumber_chars =
     ljust 50 name @ ustr '' '' @ rjust 12 (fmt_commas pymupdf_chars) @ ustr '' '' @
     rjust 12 (fmt_commas pdfplumber_chars) @ nl"

text \<open>The body of the loop over \<open>all_results.items()\<close>: the line written for one entry.\<close>

definition summary_row :: "pystr \<times> (pystr \<times> result) list \<Rightarrow> pystr" where
  "summary_row entry =
     (case entry of (pdf_name, results) \<Rightarrow>
        (let pymupdf_chars = length (get_text results (ustr ''pymupdf''));
             pdfplumber_chars = length (get_text results (ustr ''pdfplumber''))
         in format_row (short_name pdf_name) pymupdf_chars pdfplumber_chars))"

text \<open>
  The strings written to the summary file before and after the rows, one per call of
  \<open>f.write\<close>, \<open>stamp\<close> being the time read for the second.
\<close>

definition summary_header :: "pystr \<Rightarrow> pystr list" where
  "summary_header stamp =
     [ustr ''PDF '' @ [53581, 49828, 53944] @ ustr '' '' @ [52628, 52636] @ ustr '' '' @
        [44208, 44284] @ ustr '' '' @ [48708, 44368] @ nl,
      [52628, 52636] @ ustr '' '' @ [49884, 44036] @ ustr '': '' @ stamp @ nl,
      replicate 80 61 @ nl @ nl,
      ljust 50 [54028, 51068, 47749] @ ustr '' '' @ rjust 12 (ustr ''PyMuPDF'') @ ustr '' '' @
        rjust 12 (ustr ''pdfplumber'') @ nl,
      replicate 80 45 @ nl]"

definition summary_notes :: "pystr list" where
  "summary_notes =
     [[10, 10, 51452, 51032, 49324, 54637] @ ustr '':'' @ nl,
      ustr ''- '' @ [47928, 51088] @ ustr '' '' @ [49688, 44032] @ ustr '' 0'' @ [51060, 47732] @
        ustr '' '' @ [54644, 45817] @ ustr '' PDF'' @ [50640] @ ustr '' '' @
        [53581, 49828, 53944] @ ustr '' '' @ [47112, 51060, 50612, 44032] @ ustr '' '' @
        [50630, 44144, 45208] @ ustr '' '' @ [51060, 48120, 51648] @ ustr '' PDF'' @
        [51077, 45768, 45796] @ ustr ''.'' @ nl,
      ustr ''- '' @ [51060, 48120, 51648] @ ustr '' PDF'' @ [51032] @ ustr '' '' @
        [44221, 50864] @ ustr '' OCR '' @ [48169, 48277, 51012] @ ustr '' '' @
        [49324, 50857, 54644, 50556] @ ustr '' '' @ [54633, 45768, 45796] @ ustr ''.'' @ nl,
      ustr ''- OCR '' @ [49324, 50857, 51012] @ ustr '' '' @ [50948, 54644, 49436, 45716] @
        ustr '' Tesseract'' @ [50752] @ ustr '' poppler '' @ [49444, 52824, 44032] @ ustr '' '' @
        [54596, 50836, 54633, 45768, 45796] @ ustr ''.'' @ nl]"

text \<open>Everything written to the summary file, in the order of the \<open>f.write\<close> calls: the
  header, one row per entry of \<open>all_results\<close>, the notes.\<close>

definition summary_pieces ::
  "pystr \<Rightarrow> (pystr \<times> (pystr \<times> result) list) list \<Rightarrow> pystr list" where
  "summary_pieces stamp all_results =
     summary_header stamp @ map summary_row all_results @ summary_notes"

definition summary_name :: pystr where
  "summary_name = [48708, 44368] @ ustr ''_'' @ [50836, 50557] @ ustr ''.txt''"

text \<open>
  The loop over \<open>pdf_files\<close>: \<open>compare_methods\<close>, the entry of \<open>all_results\<close> under the
  file's name, \<open>save_results\<close>. An exception of \<open>save_results\<close> ends \<open>main\<close>: nothing
  catches it.
\<close>

fun main_loop ::
  "libs \<Rightarrow> path list \<Rightarrow> (pystr \<times> (pystr \<times> result) list) list \<Rightarrow> world \<Rightarrow>
     ((pystr \<times> (pystr \<times> result) list) list \<times> world) raising"
where
  "main_loop L [] all_results w = Inr (all_results, w)"
| "main_loop L (pdf_file # rest) all_results w =
     (case compare_methods L pdf_file w of
        (results, w) \<Rightarrow>
          (let all_results = dict_set all_results (path_name pdf_file) results
           in case save_results (path_name pdf_file) results w of
                Inl x \<Rightarrow> Inl x
              | Inr w \<Rightarrow> main_loop L rest all_results w))"

text \<open>The strings \<open>main\<close> prints, apart from the rules of \<open>=\<close> signs.\<close>

definition title_line :: pystr where
  "title_line =
     ustr ''PDF '' @ [53581, 49828, 53944] @ ustr '' '' @ [52628, 52636, 44592] @ ustr '' - '' @
     [48169, 48277] @ ustr '' '' @ [48708, 44368]"

definition no_dir_message :: "world \<Rightarrow> pystr" where
  "no_dir_message w =
     [50724, 47448] @ ustr '': '' @ [39] @ path_str w PDF_DIR @ [39] @ ustr '' '' @
     [54260, 45908, 44032] @ ustr '' '' @ [50630, 49845, 45768, 45796] @ ustr ''.''"

definition no_pdf_message :: "world \<Rightarrow> pystr" where
  "no_pdf_message w =
     [50724, 47448] @ ustr '': '' @ [39] @ path_str w PDF_DIR @ [39] @ ustr '' '' @
     [54260, 45908, 50640] @ ustr '' PDF '' @ [54028, 51068, 51060] @ ustr '' '' @
     [50630, 49845, 45768, 45796] @ ustr ''.''"

definition found_message :: "nat \<Rightarrow> pystr" where
  "found_message n =
     [10, 52509] @ ustr '' '' @ digits n @ [44060, 51032] @ ustr '' PDF '' @ [54028, 51068] @
     ustr '' '' @ [48156, 44204]"

definition final_title :: pystr where
  "final_title = [52572, 51333] @ ustr '' '' @ [50836, 50557]"

definition saved_to_message :: "world \<Rightarrow> pystr" where
  "saved_to_message w =
     [10, 44208, 44284, 44032] @ ustr '' '' @ [39] @ path_str w OUTPUT_DIR @ [39] @ ustr '' '' @
     [54260, 45908, 50640] @ ustr '' '' @ [51200, 51109, 46104, 50632, 49845, 45768, 45796] @
     ustr ''.''"

definition summary_file_message :: "world \<Rightarrow> pystr" where
  "summary_file_message w =
     [50836, 50557] @ ustr '' '' @ [54028, 51068] @ ustr '': '' @
     path_str w (OUTPUT_DIR @ [summary_name])"

text \<open>
  \<open>main\<close> returns the state it leaves (\<open>Inr\<close>: it returned, and the process exits with
  status 0) or the exception that ended it, with the state at that moment (\<open>Inl\<close>).
\<close>

definition main :: "libs \<Rightarrow> world \<Rightarrow> world raising" where
  "main L w =
     (let w = print (nl @ replicate 60 61) w;
          w = print title_line w;
          w = print (replicate 60 61) w
      in case pdf_dir w of
           None \<Rightarrow> Inr (print (no_dir_message w) w)
         | Some names \<Rightarrow>
             (let pdf_files = glob_pdf names in
              if pdf_files = []
              then Inr (print (no_pdf_message w) w)
              else
                (let w = print (found_message (length pdf_files)) w
                 in case mkdir_exist_ok w of
                      Inl x \<Rightarrow> Inl x
                    | Inr w \<Rightarrow>
                        (case main_loop L pdf_files [] w of
                           Inl x \<Rightarrow> Inl x
                         | Inr (all_results, w) \<Rightarrow>
                             (let w = print (nl @ replicate 60 61) w;
                                  w = print final_title w;
                                  w = print (replicate 60 61) w
                              in case write_file summary_name
                                        (summary_pieces (now_iso w (ticks w)) all_results) 1 w of
                                   Inl x \<Rightarrow> Inl x
                                 | Inr w \<Rightarrow>
                                     (let w = print (saved_to_message w) w;
                                          w = print (summary_file_message w) w
                                      in Inr w))))))"

section \<open>Vocabulary of the properties\<close>

text \<open>
  The invariant of a \<open>pages\<close> list: entry \<open>i\<close>, counted from 0, carries the page number
  \<open>i + 1\<close> and the length of its own text.
\<close>

definition numbered :: "page_entry list \<Rightarrow> bool" where
  "numbered ps \<longleftrightarrow>
     (\<forall>i < length ps. page (ps ! i) = i + 1 \<and> char_count (ps ! i) = length (ptext (ps ! i)))"

text \<open>
  In a sequence of library calls made in order until one raises: the exception of the
  first call that raises, and the values returned before it.
\<close>

fun first_raise :: "'a outcome list \<Rightarrow> exn option" where
  "first_raise [] = None"
| "first_raise (Raises e # xs) = Some e"
| "first_raise (Returns x # xs) = first_raise xs"

fun returned :: "'a outcome list \<Rightarrow> 'a list" where
  "returned [] = []"
| "returned (Raises e # xs) = []"
| "returned (Returns x # xs) = x # returned xs"

text \<open>
  The same for pdfplumber, where a page is read by two calls, \<open>extract_text\<close> and then
  \<open>extract_tables\<close>; \<open>text_or_empty\<close> is the text a page contributes, empty when the
  library reports none.
\<close>

definition page_raise :: "plumber_page \<Rightarrow> exn option" where
  "page_raise pg =
     (case extract_text pg of
        Raises e \<Rightarrow> Some e
      | Returns t \<Rightarrow> (case extract_tables pg of Raises e \<Rightarrow> Some e | Returns tb \<Rightarrow> None))"

fun pages_raise :: "plumber_page list \<Rightarrow> exn option" where
  "pages_raise [] = None"
| "pages_raise (pg # pgs) = (case page_raise pg of Some e \<Rightarrow> Some e | None \<Rightarrow> pages_raise pgs)"

definition text_or_empty :: "plumber_page \<Rightarrow> pystr" where
  "text_or_empty pg = (case extract_text pg of Returns (Some s) \<Rightarrow> s | _ \<Rightarrow> [])"

text \<open>
  The exception, if any, that opening the document at a path or reading its pages raises
  in each library: an exception during open or read.
\<close>

definition fitz_failure :: "libs \<Rightarrow> path \<Rightarrow> exn option" where
  "fitz_failure L p =
     (case fitz_open L p of Raises e \<Rightarrow> Some e | Returns doc \<Rightarrow> first_raise (doc_pages doc))"

definition plumber_failure :: "libs \<Rightarrow> path \<Rightarrow> exn option" where
  "plumber_failure L p =
     (case pdfplumber_open L p of
        Raises e \<Rightarrow> Some e
      | Returns pdf \<Rightarrow>
          (case pdf_pages pdf of Raises e \<Rightarrow> Some e | Returns pgs \<Rightarrow> pages_raise pgs))"

text \<open>
  One full iteration of the pdfplumber loop on \<open>result\<close>, and the outcomes of the OCR
  calls on a list of images: names for the proofs.
\<close>

definition plumber_step :: "nat \<Rightarrow> pystr option \<Rightarrow> table list \<Rightarrow> result \<Rightarrow> result" where
  "plumber_step page_num t tbls result =
     (let page_text = (case t of None \<Rightarrow> [] | Some s \<Rightarrow> s);
          result = result\<lparr>pages := pages result @
                         [\<lparr>page = page_num + 1, ptext = page_text,
                           char_count = length page_text,
                           table_count = Some (length tbls)\<rparr>]\<rparr>
      in if tbls \<noteq> []
         then result\<lparr>tables := map_option (\<lambda>ts. ts @ [(page_num + 1, tbls)]) (tables result)\<rparr>
         else result)"

definition ocr_outcomes :: "libs \<Rightarrow> nat list \<Rightarrow> pystr outcome list" where
  "ocr_outcomes L images =
     map (\<lambda>img. image_to_string L
                  (probe_tesseract (os_path_exists L) tesseract_paths (tesseract_cmd L)) img
                  (ustr ''kor+eng+rus'') (ustr ''--psm 6'')) images"

text \<open>
  The files of \<open>OUTPUT_DIR\<close> as writes, none when there is no directory; and the test of
  \<open>save_results\<close> for writing a result.
\<close>

definition dir_files :: "out_entry \<Rightarrow> (pystr \<times> pystr) list" where
  "dir_files d = (case d of Dir fs \<Rightarrow> fs | _ \<Rightarrow> [])"

definition saved :: "pystr \<times> result \<Rightarrow> bool" where
  "saved entry = (case entry of (method_name, result) \<Rightarrow>
     success result \<and> strip (full_text result) \<noteq> [])"


definition clock_ok :: "world \<Rightarrow> bool" where
  "clock_ok w \<longleftrightarrow> (\<forall>k. utf8_ok (now_iso w k))"

text \<open>
  What the output file of an entry of \<open>results\<close> needs, beside the name of the input
  file and the time: the file system opens its name, and the method's label and the text
  can be encoded.
\<close>

definition can_write :: "world \<Rightarrow> pystr \<Rightarrow> pystr \<times> result \<Rightarrow> bool" where
  "can_write w base_name entry = (case entry of (method_name, result) \<Rightarrow>
     open_error w (output_name base_name method_name) = None \<and>
     utf8_ok (method_str result) \<and> utf8_ok (full_text result))"

text \<open>
  Reading a count back from a column of the summary table: the decimal value of the
  digits in it, whatever stands between them.
\<close>

definition is_digit :: "nat \<Rightarrow> bool" where
  "is_digit c \<longleftrightarrow> 48 \<le> c \<and> c \<le> 57"

definition decimal :: "pystr \<Rightarrow> nat" where
  "decimal ds = foldl (\<lambda>a c. 10 * a + (c - 48)) 0 ds"

definition read_count :: "pystr \<Rightarrow> nat" where
  "read_count s = decimal (filter is_digit s)"

text \<open>
  A row of the summary table as it is read: the name of the file in a column of 50
  characters, cut to 47 characters and three dots when it has more than 50, then the two
  counts as they are printed, each at the right of a column of 12, one space between the
  columns and a newline at the end.
\<close>

definition table_row :: "pystr \<Rightarrow> pystr \<Rightarrow> pystr \<Rightarrow> pystr" where
  "table_row name count_a count_b =
     (if 50 < length name then take 47 name @ ustr ''...''
      else name @ replicate (50 - length name) 32) @ [32] @
     replicate (12 - length count_a) 32 @ count_a @ [32] @
     replicate (12 - length count_b) 32 @ count_b @ [10]"

text \<open>
  What \<open>main\<close> prints first, and the results \<open>compare_methods\<close> collects for a file.
\<close>

definition banner :: "pystr list" where
  "banner = [nl @ replicate 60 61, title_line, replicate 60 61]"

definition results_of :: "libs \<Rightarrow> path \<Rightarrow> (pystr \<times> result) list" where
  "results_of L f =
     [(ustr ''pymupdf'', extract_with_pymupdf L f),
      (ustr ''pdfplumber'', extract_with_pdfplumber L f)]"

section \<open>A concrete environment\<close>

text \<open>
  Two documents for the examples: \<open>a.pdf\<close>, which both libraries read (two pages, the
  second without text for pdfplumber), \<open>b.pdf\<close>, whose second page PyMuPDF fails to
  load while pdfplumber reads it, \<open>scan.pdf\<close>, two pages without any text, and
  \<open>blank.pdf\<close>, one page without any text. No other path can be opened. The OCR library is not
  installed, and converting a document to images fails.
\<close>

definition demo_exn :: exn where
  "demo_exn = Exn OtherException (ustr ''cannot load page'')"

definition good_path :: path where
  "good_path = PDF_DIR @ [ustr ''a.pdf'']"

definition bad_path :: path where
  "bad_path = PDF_DIR @ [ustr ''b.pdf'']"

definition scan_path :: path where
  "scan_path = PDF_DIR @ [ustr ''scan.pdf'']"

definition blank_path :: path where
  "blank_path = PDF_DIR @ [ustr ''blank.pdf'']"

definition demo_libs :: libs where
  "demo_libs =
     \<lparr>fitz_open = (\<lambda>p.
        if p = good_path
        then Returns \<lparr>doc_pages = [Returns (ustr ''ab''), Returns (ustr ''c'')],
                      doc_close = Returns ()\<rparr>
        else if p = bad_path
        then Returns \<lparr>doc_pages = [Returns (ustr ''x''), Raises demo_exn],
                      doc_close = Returns ()\<rparr>
        else if p = scan_path
        then Returns \<lparr>doc_pages = [Returns [], Returns []], doc_close = Returns ()\<rparr>
        else if p = blank_path
        then Returns \<lparr>doc_pages = [Returns []], doc_close = Returns ()\<rparr>
        else Raises (Exn OtherException (ustr ''no such file''))),
      pdfplumber_open = (\<lambda>p.
        if p = good_path \<or> p = bad_path
        then Returns \<lparr>pdf_pages = Returns
               [\<lparr>extract_text = Returns (Some (ustr ''ab'')), extract_tables = Returns []\<rparr>,
                \<lparr>extract_text = Returns None, extract_tables = Returns []\<rparr>]\<rparr>
        else if p = scan_path
        then Returns \<lparr>pdf_pages = Returns
               [\<lparr>extract_text = Returns None, extract_tables = Returns []\<rparr>,
                \<lparr>extract_text = Returns None, extract_tables = Returns []\<rparr>]\<rparr>
        else if p = blank_path
        then Returns \<lparr>pdf_pages = Returns
               [\<lparr>extract_text = Returns None, extract_tables = Returns []\<rparr>]\<rparr>
        else Raises (Exn OtherException (ustr ''no such file''))),
      import_pytesseract = Raises (Exn ImportError (ustr ''No module named pytesseract'')),
      import_pdf2image = Returns (),
      tesseract_cmd = ustr ''tesseract'',
      os_path_exists = (\<lambda>p. False),
      convert_from_path = (\<lambda>p. Raises (Exn OtherException (ustr ''Unable to get page count.''))),
      image_to_string = (\<lambda>cmd img lang config. Returns [])\<rparr>"

text \<open>The same libraries when neither of them can open any document.\<close>

definition broken_libs :: libs where
  "broken_libs =
     demo_libs\<lparr>fitz_open := (\<lambda>p. Raises demo_exn),
               pdfplumber_open := (\<lambda>p. Raises demo_exn)\<rparr>"

text \<open>
  A process started where \<open>PDF_DIR\<close> holds the two documents and a text file between
  them, \<open>OUTPUT_DIR\<close> does not exist yet, and the file system opens every name. Two
  variants: a file system that refuses names of more than 255 characters, with a
  document whose name has 250; and a directory whose only entry has a name that is not
  text in the file system's encoding, which the scan returns with a lone surrogate.
\<close>

definition demo_world :: world where
  "demo_world =
     \<lparr>pdf_dir = Some [ustr ''a.pdf'', ustr ''notes.txt'', ustr ''b.pdf''],
      out_dir = Absent,
      open_error = (\<lambda>name. None),
      stdout = [],
      now_iso = (\<lambda>k. ustr ''2024-05-01T10:00:00''),
      ticks = 0,
      os_sep = ustr ''/''\<rparr>"




lemma numbered_Nil: "numbered []"
  by (simp add: numbered_def)

lemma numbered_snoc:
  assumes "numbered ps"
  shows "numbered (ps @ [\<lparr>page = length ps + 1, ptext = t, char_count = length t, table_count = tc\<rparr>])"
  using assms by (auto simp: numbered_def nth_append less_Suc_eq)

lemma pymupdf_loop_fields:
  "pymupdf_loop xs n ts r = (ex, ts', r') \<Longrightarrow>
     full_text r' = full_text r \<and> success r' = success r \<and> error r' = error r"
  by (induction xs n ts r rule: pymupdf_loop.induct) auto

lemma pymupdf_loop_numbered:
  "pymupdf_loop xs n ts r = (ex, ts', r') \<Longrightarrow> numbered (pages r) \<Longrightarrow> length (pages r) = n \<Longrightarrow>
     numbered (pages r')"
proof (induction xs n ts r rule: pymupdf_loop.induct)
  case (3 page_text rest page_num all_text result)
  show ?case
  proof (rule "3.IH")
    show "numbered (pages (result\<lparr>pages := pages result @
          [\<lparr>page = page_num + 1, ptext = page_text, char_count = length page_text,
            table_count = None\<rparr>]\<rparr>))"
      using numbered_snoc[OF "3.prems"(2)] "3.prems"(3) by simp
  qed (use "3.prems" in auto)
qed auto

lemma pymupdf_loop_texts:
  "pymupdf_loop xs n ts r = (ex, ts', r') \<Longrightarrow> map ptext (pages r) = ts \<Longrightarrow>
     map ptext (pages r') = ts'"
  by (induction xs n ts r rule: pymupdf_loop.induct) auto

lemma pymupdf_loop_raise: "fst (pymupdf_loop xs n ts r) = first_raise xs"
  by (induction xs n ts r rule: pymupdf_loop.induct) auto

lemma pymupdf_loop_all_text: "fst (snd (pymupdf_loop xs n ts r)) = ts @ returned xs"
  by (induction xs n ts r rule: pymupdf_loop.induct) auto

lemma ocr_loop_eq: "ocr_loop ocr imgs n ts r = pymupdf_loop (map ocr imgs) n ts r"
  by (induction ocr imgs n ts r rule: ocr_loop.induct) (auto split: outcome.splits)

lemma pdfplumber_loop_Cons:
  "pdfplumber_loop (pg # rest) n ts r =
     (case extract_text pg of
        Raises e \<Rightarrow> (Some e, ts, r)
      | Returns t \<Rightarrow>
          (case extract_tables pg of
             Raises e \<Rightarrow> (Some e, ts @ [case t of None \<Rightarrow> [] | Some s \<Rightarrow> s], r)
           | Returns tbls \<Rightarrow>
               pdfplumber_loop rest (n + 1) (ts @ [case t of None \<Rightarrow> [] | Some s \<Rightarrow> s])
                 (plumber_step n t tbls r)))"
  by (simp add: plumber_step_def Let_def split: outcome.splits)

lemma plumber_step_fields:
  "full_text (plumber_step n t tbls r) = full_text r"
  "success (plumber_step n t tbls r) = success r"
  "error (plumber_step n t tbls r) = error r"
  "pages (plumber_step n t tbls r) = pages r @
     [\<lparr>page = n + 1, ptext = (case t of None \<Rightarrow> [] | Some s \<Rightarrow> s),
       char_count = length (case t of None \<Rightarrow> [] | Some s \<Rightarrow> s),
       table_count = Some (length tbls)\<rparr>]"
  by (simp_all add: plumber_step_def Let_def)

lemma pdfplumber_loop_fields:
  "pdfplumber_loop pgs n ts r = (ex, ts', r') \<Longrightarrow>
     full_text r' = full_text r \<and> success r' = success r \<and> error r' = error r"
proof (induction pgs arbitrary: n ts r)
  case Nil
  then show ?case by simp
next
  case (Cons pg rest)
  show ?case
  proof (cases "extract_text pg")
    case (Raises e)
    with Cons.prems show ?thesis by (simp add: pdfplumber_loop_Cons del: pdfplumber_loop.simps(2))
  next
    case T: (Returns t)
    show ?thesis
    proof (cases "extract_tables pg")
      case (Raises e)
      with T Cons.prems show ?thesis by (simp add: pdfplumber_loop_Cons del: pdfplumber_loop.simps(2))
    next
      case (Returns tbls)
      with T Cons.prems have
        "pdfplumber_loop rest (n + 1) (ts @ [case t of None \<Rightarrow> [] | Some s \<Rightarrow> s])
           (plumber_step n t tbls r) = (ex, ts', r')"
        by (simp add: pdfplumber_loop_Cons del: pdfplumber_loop.simps(2))
      from Cons.IH[OF this] show ?thesis by (simp add: plumber_step_fields)
    qed
  qed
qed

lemma pdfplumber_loop_numbered:
  "pdfplumber_loop pgs n ts r = (ex, ts', r') \<Longrightarrow> numbered (pages r) \<Longrightarrow>
     length (pages r) = n \<Longrightarrow> numbered (pages r')"
proof (induction pgs arbitrary: n ts r)
  case Nil
  then show ?case by simp
next
  case (Cons pg rest)
  show ?case
  proof (cases "extract_text pg")
    case (Raises e)
    with Cons.prems show ?thesis by (simp add: pdfplumber_loop_Cons del: pdfplumber_loop.simps(2))
  next
    case T: (Returns t)
    show ?thesis
    proof (cases "extract_tables pg")
      case (Raises e)
      with T Cons.prems show ?thesis by (simp add: pdfplumber_loop_Cons del: pdfplumber_loop.simps(2))
    next
      case (Returns tbls)
      with T Cons.prems have run:
        "pdfplumber_loop rest (n + 1) (ts @ [case t of None \<Rightarrow> [] | Some s \<Rightarrow> s])
           (plumber_step n t tbls r) = (ex, ts', r')"
        by (simp add: pdfplumber_loop_Cons del: pdfplumber_loop.simps(2))
      have "numbered (pages (plumber_step n t tbls r))"
        using numbered_snoc[OF Cons.prems(2)] Cons.prems(3) by (simp add: plumber_step_fields)
      moreover have "length (pages (plumber_step n t tbls r)) = n + 1"
        using Cons.prems(3) by (simp add: plumber_step_fields)
      ultimately show ?thesis by (rule Cons.IH[OF run])
    qed
  qed
qed

lemma pdfplumber_loop_texts:
  "pdfplumber_loop pgs n ts r = (None, ts', r') \<Longrightarrow> map ptext (pages r) = ts \<Longrightarrow>
     map ptext (pages r') = ts'"
proof (induction pgs arbitrary: n ts r)
  case Nil
  then show ?case by simp
next
  case (Cons pg rest)
  show ?case
  proof (cases "extract_text pg")
    case (Raises e)
    with Cons.prems show ?thesis by (simp add: pdfplumber_loop_Cons del: pdfplumber_loop.simps(2))
  next
    case T: (Returns t)
    show ?thesis
    proof (cases "extract_tables pg")
      case (Raises e)
      with T Cons.prems show ?thesis by (simp add: pdfplumber_loop_Cons del: pdfplumber_loop.simps(2))
    next
      case (Returns tbls)
      with T Cons.prems have run:
        "pdfplumber_loop rest (n + 1) (ts @ [case t of None \<Rightarrow> [] | Some s \<Rightarrow> s])
           (plumber_step n t tbls r) = (None, ts', r')"
        by (simp add: pdfplumber_loop_Cons del: pdfplumber_loop.simps(2))
      show ?thesis
        by (rule Cons.IH[OF run]) (simp add: plumber_step_fields Cons.prems(2))
    qed
  qed
qed

lemma pdfplumber_loop_raise: "fst (pdfplumber_loop pgs n ts r) = pages_raise pgs"
  by (induction pgs arbitrary: n ts r)
     (simp_all add: pdfplumber_loop_Cons page_raise_def del: pdfplumber_loop.simps(2)
        split: outcome.splits)

lemma pdfplumber_loop_all_text:
  "pages_raise pgs = None \<Longrightarrow>
     fst (snd (pdfplumber_loop pgs n ts r)) = ts @ map text_or_empty pgs"
  by (induction pgs arbitrary: n ts r)
     (simp_all add: pdfplumber_loop_Cons page_raise_def text_or_empty_def
        del: pdfplumber_loop.simps(2) split: outcome.splits option.splits)

lemma pymupdf_init_fields:
  "full_text pymupdf_init = []" "success pymupdf_init = False" "error pymupdf_init = None"
  "pages pymupdf_init = []"
  by (simp_all add: pymupdf_init_def)

lemma pdfplumber_init_fields:
  "full_text pdfplumber_init = []" "success pdfplumber_init = False"
  "error pdfplumber_init = None" "pages pdfplumber_init = []"
  by (simp_all add: pdfplumber_init_def)

lemma ocr_init_fields:
  "full_text ocr_init = []" "success ocr_init = False" "error ocr_init = None"
  "pages ocr_init = []"
  by (simp_all add: ocr_init_def)

lemma pymupdf_open_fails:
  assumes "fitz_open L p = Raises e"
  shows "extract_with_pymupdf L p = pymupdf_init\<lparr>error := Some (exn_str e)\<rparr>"
  using assms by (simp add: extract_with_pymupdf_def)

lemma pymupdf_read_fails:
  assumes "fitz_open L p = Returns doc" "first_raise (doc_pages doc) = Some e"
  shows "\<exists>r'. extract_with_pymupdf L p = r'\<lparr>error := Some (exn_str e)\<rparr> \<and>
              full_text r' = [] \<and> success r' = False \<and> numbered (pages r')"
proof -
  obtain ex ts' r' where run: "pymupdf_loop (doc_pages doc) 0 [] pymupdf_init = (ex, ts', r')"
    by (cases "pymupdf_loop (doc_pages doc) 0 [] pymupdf_init") auto
  have "ex = Some e"
    using pymupdf_loop_raise[of "doc_pages doc" 0 "[]" pymupdf_init] run assms(2) by simp
  then have "extract_with_pymupdf L p = r'\<lparr>error := Some (exn_str e)\<rparr>"
    using assms(1) run by (simp add: extract_with_pymupdf_def)
  moreover have "full_text r' = [] \<and> success r' = False"
    using pymupdf_loop_fields[OF run] by (simp add: pymupdf_init_fields)
  moreover have "numbered (pages r')"
    by (rule pymupdf_loop_numbered[OF run]) (simp_all add: pymupdf_init_fields numbered_Nil)
  ultimately show ?thesis by blast
qed

lemma pymupdf_read_ok:
  assumes "fitz_open L p = Returns doc" "first_raise (doc_pages doc) = None"
  shows "\<exists>r'. extract_with_pymupdf L p =
               (case doc_close doc of
                  Raises e \<Rightarrow> r'\<lparr>full_text := join nl (returned (doc_pages doc)),
                                 success := True, error := Some (exn_str e)\<rparr>
                | Returns u \<Rightarrow> r'\<lparr>full_text := join nl (returned (doc_pages doc)),
                                  success := True\<rparr>) \<and>
              error r' = None \<and> numbered (pages r') \<and>
              map ptext (pages r') = returned (doc_pages doc)"
proof -
  obtain ex ts' r' where run: "pymupdf_loop (doc_pages doc) 0 [] pymupdf_init = (ex, ts', r')"
    by (cases "pymupdf_loop (doc_pages doc) 0 [] pymupdf_init") auto
  have ex: "ex = None"
    using pymupdf_loop_raise[of "doc_pages doc" 0 "[]" pymupdf_init] run assms(2) by simp
  have ts: "ts' = returned (doc_pages doc)"
    using pymupdf_loop_all_text[of "doc_pages doc" 0 "[]" pymupdf_init] run by simp
  have "extract_with_pymupdf L p =
               (case doc_close doc of
                  Raises e \<Rightarrow> r'\<lparr>full_text := join nl (returned (doc_pages doc)),
                                 success := True, error := Some (exn_str e)\<rparr>
                | Returns u \<Rightarrow> r'\<lparr>full_text := join nl (returned (doc_pages doc)),
                                  success := True\<rparr>)"
    using assms(1) run ex ts by (simp add: extract_with_pymupdf_def split: outcome.splits)
  moreover have "error r' = None"
    using pymupdf_loop_fields[OF run] by (simp add: pymupdf_init_fields)
  moreover have "numbered (pages r')"
    by (rule pymupdf_loop_numbered[OF run]) (simp_all add: pymupdf_init_fields numbered_Nil)
  moreover have "map ptext (pages r') = returned (doc_pages doc)"
    using pymupdf_loop_texts[OF run] ts by (simp add: pymupdf_init_fields)
  ultimately show ?thesis by blast
qed

lemma pymupdf_numbered: "numbered (pages (extract_with_pymupdf L p))"
proof (cases "fitz_open L p")
  case (Raises e)
  then show ?thesis by (simp add: pymupdf_open_fails pymupdf_init_fields numbered_Nil)
next
  case (Returns doc)
  show ?thesis
  proof (cases "first_raise (doc_pages doc)")
    case None
    from pymupdf_read_ok[OF Returns None] show ?thesis
      by (cases "doc_close doc") auto
  next
    case (Some e)
    from pymupdf_read_fails[OF Returns Some] show ?thesis by auto
  qed
qed

lemma pymupdf_failure_Some:
  assumes "fitz_failure L p = Some e"
  shows "\<not> success (extract_with_pymupdf L p) \<and>
         error (extract_with_pymupdf L p) = Some (exn_str e) \<and>
         full_text (extract_with_pymupdf L p) = []"
proof (cases "fitz_open L p")
  case (Raises e')
  with assms have "e' = e" by (simp add: fitz_failure_def)
  with Raises show ?thesis by (simp add: pymupdf_open_fails pymupdf_init_fields)
next
  case (Returns doc)
  with assms have "first_raise (doc_pages doc) = Some e" by (simp add: fitz_failure_def)
  from pymupdf_read_fails[OF Returns this] show ?thesis by auto
qed

lemma pymupdf_failure_None:
  assumes "fitz_failure L p = None"
  shows "\<exists>doc. fitz_open L p = Returns doc \<and>
           success (extract_with_pymupdf L p) \<and>
           full_text (extract_with_pymupdf L p) = join nl (returned (doc_pages doc)) \<and>
           map ptext (pages (extract_with_pymupdf L p)) = returned (doc_pages doc) \<and>
           error (extract_with_pymupdf L p) =
             (case doc_close doc of Raises e \<Rightarrow> Some (exn_str e) | Returns u \<Rightarrow> None)"
proof (cases "fitz_open L p")
  case (Raises e')
  with assms show ?thesis by (simp add: fitz_failure_def)
next
  case (Returns doc)
  with assms have "first_raise (doc_pages doc) = None" by (simp add: fitz_failure_def)
  from pymupdf_read_ok[OF Returns this] Returns show ?thesis
    by (cases "doc_close doc") auto
qed

lemma pdfplumber_open_fails:
  assumes "pdfplumber_open L p = Raises e"
  shows "extract_with_pdfplumber L p = pdfplumber_init\<lparr>error := Some (exn_str e)\<rparr>"
  using assms by (simp add: extract_with_pdfplumber_def)

lemma pdfplumber_pages_fails:
  assumes "pdfplumber_open L p = Returns pdf" "pdf_pages pdf = Raises e"
  shows "extract_with_pdfplumber L p = pdfplumber_init\<lparr>error := Some (exn_str e)\<rparr>"
  using assms by (simp add: extract_with_pdfplumber_def pdfplumber_body_def)

lemma pdfplumber_read_fails:
  assumes "pdfplumber_open L p = Returns pdf" "pdf_pages pdf = Returns pgs"
    "pages_raise pgs = Some e"
  shows "\<exists>r'. extract_with_pdfplumber L p = r'\<lparr>error := Some (exn_str e)\<rparr> \<and>
              full_text r' = [] \<and> success r' = False \<and> numbered (pages r')"
proof -
  obtain ex ts' r' where run: "pdfplumber_loop pgs 0 [] pdfplumber_init = (ex, ts', r')"
    by (cases "pdfplumber_loop pgs 0 [] pdfplumber_init") auto
  have "ex = Some e"
    using pdfplumber_loop_raise[of pgs 0 "[]" pdfplumber_init] run assms(3) by simp
  then have "extract_with_pdfplumber L p = r'\<lparr>error := Some (exn_str e)\<rparr>"
    using assms(1,2) run by (simp add: extract_with_pdfplumber_def pdfplumber_body_def)
  moreover have "full_text r' = [] \<and> success r' = False"
    using pdfplumber_loop_fields[OF run] by (simp add: pdfplumber_init_fields)
  moreover have "numbered (pages r')"
    by (rule pdfplumber_loop_numbered[OF run]) (simp_all add: pdfplumber_init_fields numbered_Nil)
  ultimately show ?thesis by blast
qed

lemma pdfplumber_read_ok:
  assumes "pdfplumber_open L p = Returns pdf" "pdf_pages pdf = Returns pgs"
    "pages_raise pgs = None"
  shows "\<exists>r'. extract_with_pdfplumber L p =
               r'\<lparr>full_text := join nl (map text_or_empty pgs), success := True\<rparr> \<and>
              error r' = None \<and> numbered (pages r') \<and>
              map ptext (pages r') = map text_or_empty pgs"
proof -
  obtain ex ts' r' where run: "pdfplumber_loop pgs 0 [] pdfplumber_init = (ex, ts', r')"
    by (cases "pdfplumber_loop pgs 0 [] pdfplumber_init") auto
  have ex: "ex = None"
    using pdfplumber_loop_raise[of pgs 0 "[]" pdfplumber_init] run assms(3) by simp
  have ts: "ts' = map text_or_empty pgs"
    using pdfplumber_loop_all_text[OF assms(3), of 0 "[]" pdfplumber_init] run by simp
  have "extract_with_pdfplumber L p =
               r'\<lparr>full_text := join nl (map text_or_empty pgs), success := True\<rparr>"
    using assms(1,2) run ex ts by (simp add: extract_with_pdfplumber_def pdfplumber_body_def)
  moreover have "error r' = None"
    using pdfplumber_loop_fields[OF run] by (simp add: pdfplumber_init_fields)
  moreover have "numbered (pages r')"
    by (rule pdfplumber_loop_numbered[OF run]) (simp_all add: pdfplumber_init_fields numbered_Nil)
  moreover have "map ptext (pages r') = map text_or_empty pgs"
    using pdfplumber_loop_texts[OF run[unfolded ex]] ts by (simp add: pdfplumber_init_fields)
  ultimately show ?thesis by blast
qed

lemma pdfplumber_numbered: "numbered (pages (extract_with_pdfplumber L p))"
proof (cases "pdfplumber_open L p")
  case (Raises e)
  then show ?thesis by (simp add: pdfplumber_open_fails pdfplumber_init_fields numbered_Nil)
next
  case (Returns pdf)
  show ?thesis
  proof (cases "pdf_pages pdf")
    case (Raises e)
    with Returns show ?thesis
      by (simp add: pdfplumber_pages_fails pdfplumber_init_fields numbered_Nil)
  next
    case P: (Returns pgs)
    show ?thesis
    proof (cases "pages_raise pgs")
      case None
      from pdfplumber_read_ok[OF Returns P None] show ?thesis by auto
    next
      case (Some e)
      from pdfplumber_read_fails[OF Returns P Some] show ?thesis by auto
    qed
  qed
qed

lemma pdfplumber_failure_Some:
  assumes "plumber_failure L p = Some e"
  shows "\<not> success (extract_with_pdfplumber L p) \<and>
         error (extract_with_pdfplumber L p) = Some (exn_str e) \<and>
         full_text (extract_with_pdfplumber L p) = []"
proof (cases "pdfplumber_open L p")
  case (Raises e')
  with assms have "e' = e" by (simp add: plumber_failure_def)
  with Raises show ?thesis by (simp add: pdfplumber_open_fails pdfplumber_init_fields)
next
  case (Returns pdf)
  show ?thesis
  proof (cases "pdf_pages pdf")
    case (Raises e')
    with Returns assms have "e' = e" by (simp add: plumber_failure_def)
    with Returns Raises show ?thesis
      by (simp add: pdfplumber_pages_fails pdfplumber_init_fields)
  next
    case P: (Returns pgs)
    with Returns assms have "pages_raise pgs = Some e" by (simp add: plumber_failure_def)
    from pdfplumber_read_fails[OF Returns P this] show ?thesis by auto
  qed
qed

lemma pdfplumber_failure_None:
  assumes "plumber_failure L p = None"
  shows "\<exists>pdf pgs. pdfplumber_open L p = Returns pdf \<and> pdf_pages pdf = Returns pgs \<and>
           success (extract_with_pdfplumber L p) \<and>
           full_text (extract_with_pdfplumber L p) = join nl (map text_or_empty pgs) \<and>
           map ptext (pages (extract_with_pdfplumber L p)) = map text_or_empty pgs \<and>
           error (extract_with_pdfplumber L p) = None"
proof (cases "pdfplumber_open L p")
  case (Raises e')
  with assms show ?thesis by (simp add: plumber_failure_def)
next
  case (Returns pdf)
  show ?thesis
  proof (cases "pdf_pages pdf")
    case (Raises e')
    with Returns assms show ?thesis by (simp add: plumber_failure_def)
  next
    case P: (Returns pgs)
    with Returns assms have "pages_raise pgs = None" by (simp add: plumber_failure_def)
    from pdfplumber_read_ok[OF Returns P this] Returns P show ?thesis by auto
  qed
qed

lemma ocr_try_result:
  assumes "ocr_try L p ocr_init = (ex, r)"
  shows "numbered (pages r) \<and> (\<not> success r \<longrightarrow> full_text r = []) \<and>
         (success r \<longrightarrow> ex = None \<and> error r = None \<and>
            full_text r = join nl (map ptext (pages r))) \<and>
         (\<not> success r \<and> ex = None \<longrightarrow> error r \<noteq> None)"
proof (cases "import_pytesseract L")
  case (Raises e)
  with assms show ?thesis by (auto simp: ocr_try_def ocr_init_fields numbered_Nil)
next
  case I1: (Returns u)
  show ?thesis
  proof (cases "import_pdf2image L")
    case (Raises e)
    with I1 assms show ?thesis by (auto simp: ocr_try_def ocr_init_fields numbered_Nil)
  next
    case I2: (Returns u2)
    show ?thesis
    proof (cases "convert_from_path L p")
      case (Raises e)
      with I1 I2 assms show ?thesis
        by (auto simp: ocr_try_def ocr_init_fields numbered_Nil)
    next
      case C: (Returns images)
      obtain ex1 ts' r' where
        run: "pymupdf_loop (ocr_outcomes L images) 0 [] ocr_init = (ex1, ts', r')"
        by (cases "pymupdf_loop (ocr_outcomes L images) 0 [] ocr_init") auto
      have f: "full_text r' = [] \<and> success r' = False \<and> error r' = None"
        using pymupdf_loop_fields[OF run] by (simp add: ocr_init_fields)
      have n: "numbered (pages r')"
        by (rule pymupdf_loop_numbered[OF run]) (simp_all add: ocr_init_fields numbered_Nil)
      have t: "map ptext (pages r') = ts'"
        by (rule pymupdf_loop_texts[OF run]) (simp add: ocr_init_fields)
      have eq: "ocr_try L p ocr_init =
                  (case ex1 of
                     Some e \<Rightarrow> (Some e, r')
                   | None \<Rightarrow> (None, r'\<lparr>full_text := join nl ts', success := True\<rparr>))"
        using I1 I2 C run
        by (simp add: ocr_try_def ocr_loop_eq ocr_outcomes_def Let_def split: option.splits)
      show ?thesis
      proof (cases ex1)
        case None
        with eq assms have "r = r'\<lparr>full_text := join nl ts', success := True\<rparr>" "ex = None"
          by simp_all
        with f n t show ?thesis by simp
      next
        case (Some e)
        with eq assms have "r = r'" "ex = Some e" by simp_all
        with f n show ?thesis by simp
      qed
    qed
  qed
qed

lemma ocr_result:
  "numbered (pages (extract_with_ocr L p)) \<and>
   (\<not> success (extract_with_ocr L p) \<longrightarrow> full_text (extract_with_ocr L p) = []) \<and>
   (success (extract_with_ocr L p) \<or> error (extract_with_ocr L p) \<noteq> None)"
proof -
  obtain ex r where run: "ocr_try L p ocr_init = (ex, r)"
    by (cases "ocr_try L p ocr_init") auto
  from ocr_try_result[OF run] run show ?thesis
    by (cases ex) (auto simp: extract_with_ocr_def)
qed

lemma ocr_import_error:
  assumes "import_pytesseract L = Raises e \<or>
           (import_pytesseract L = Returns () \<and> import_pdf2image L = Raises e)"
    and "exn_class e = ImportError"
  shows "extract_with_ocr L p = ocr_init\<lparr>error := Some (missing_library_prefix @ exn_str e)\<rparr>"
  using assms by (auto simp: extract_with_ocr_def ocr_try_def)

lemma ocr_convert_error:
  assumes "import_pytesseract L = Returns ()" "import_pdf2image L = Returns ()"
    "convert_from_path L p = Raises e"
  shows "extract_with_ocr L p = ocr_init\<lparr>error := Some (convert_failed_prefix @ exn_str e)\<rparr>"
  using assms by (simp add: extract_with_ocr_def ocr_try_def)

lemma prefixes_differ: "missing_library_prefix @ s \<noteq> convert_failed_prefix @ t"
  by (simp add: missing_library_prefix_def convert_failed_prefix_def ustr_def)

lemma strip_all_space:
  assumes "\<forall>c \<in> set s. py_isspace c"
  shows "strip s = []"
proof -
  from assms have d: "dropWhile py_isspace s = []" by simp
  show ?thesis unfolding strip_def d by simp
qed

lemma join_empty_fragments:
  "\<forall>t \<in> set ts. t = [] \<Longrightarrow> set (join nl ts) \<subseteq> {10}"
  by (induction nl ts rule: join.induct) (auto simp: nl_def)

lemma strip_join_empty: "\<forall>t \<in> set ts. t = [] \<Longrightarrow> strip (join nl ts) = []"
proof (rule strip_all_space)
  assume "\<forall>t \<in> set ts. t = []"
  from join_empty_fragments[OF this] show "\<forall>c \<in> set (join nl ts). py_isspace c"
    by (auto simp: py_isspace_def)
qed

lemma returned_map_Returns: "returned (map Returns ts) = ts"
  by (induction ts) auto

lemma first_raise_map_Returns: "first_raise (map Returns ts) = None"
  by (induction ts) auto

lemma compare_methods_results:
  "fst (compare_methods L p w) =
     [(ustr ''pymupdf'', extract_with_pymupdf L p),
      (ustr ''pdfplumber'', extract_with_pdfplumber L p)]"
  by (simp add: compare_methods_def Let_def ustr_def)

lemmas demo_defs =
  demo_libs_def demo_exn_def good_path_def bad_path_def scan_path_def blank_path_def
  PDF_DIR_def ustr_def nl_def

lemma demo_pymupdf_good:
  "extract_with_pymupdf demo_libs good_path =
     pymupdf_init\<lparr>full_text := ustr ''ab'' @ nl @ ustr ''c'',
       pages := [\<lparr>page = 1, ptext = ustr ''ab'', char_count = 2, table_count = None\<rparr>,
                 \<lparr>page = 2, ptext = ustr ''c'', char_count = 1, table_count = None\<rparr>],
       success := True\<rparr>"
  by (simp add: extract_with_pymupdf_def demo_defs pymupdf_init_def)

lemma demo_pymupdf_bad:
  "extract_with_pymupdf demo_libs bad_path =
     pymupdf_init\<lparr>pages := [\<lparr>page = 1, ptext = ustr ''x'', char_count = 1, table_count = None\<rparr>],
       error := Some (ustr ''cannot load page'')\<rparr>"
  by (simp add: extract_with_pymupdf_def demo_defs pymupdf_init_def)

lemma demo_pdfplumber_bad:
  "extract_with_pdfplumber demo_libs bad_path =
     pdfplumber_init\<lparr>full_text := ustr ''ab'' @ nl,
       pages := [\<lparr>page = 1, ptext = ustr ''ab'', char_count = 2, table_count = Some 0\<rparr>,
                 \<lparr>page = 2, ptext = [], char_count = 0, table_count = Some 0\<rparr>],
       success := True\<rparr>"
  by (simp add: extract_with_pdfplumber_def pdfplumber_body_def demo_defs pdfplumber_init_def Let_def)

lemma pymupdf_failed_empty:
  "\<not> success (extract_with_pymupdf L p) \<Longrightarrow> full_text (extract_with_pymupdf L p) = []"
  using pymupdf_failure_Some[of L p] pymupdf_failure_None[of L p]
  by (cases "fitz_failure L p") auto

lemma pdfplumber_failed_empty:
  "\<not> success (extract_with_pdfplumber L p) \<Longrightarrow> full_text (extract_with_pdfplumber L p) = []"
  using pdfplumber_failure_Some[of L p] pdfplumber_failure_None[of L p]
  by (cases "plumber_failure L p") auto

lemma pymupdf_success_join:
  "success (extract_with_pymupdf L p) \<Longrightarrow>
     full_text (extract_with_pymupdf L p) = join nl (map ptext (pages (extract_with_pymupdf L p)))"
  using pymupdf_failure_Some[of L p] pymupdf_failure_None[of L p]
  by (cases "fitz_failure L p") auto

lemma pdfplumber_success_join:
  "success (extract_with_pdfplumber L p) \<Longrightarrow>
     full_text (extract_with_pdfplumber L p) =
       join nl (map ptext (pages (extract_with_pdfplumber L p)))"
  using pdfplumber_failure_Some[of L p] pdfplumber_failure_None[of L p]
  by (cases "plumber_failure L p") auto

lemma text_or_empty_None: "extract_text pg = Returns None \<Longrightarrow> text_or_empty pg = []"
  by (simp add: text_or_empty_def)

lemma text_or_empty_Some: "extract_text pg = Returns (Some s) \<Longrightarrow> text_or_empty pg = s"
  by (simp add: text_or_empty_def)

lemma ocr_failed_empty:
  "\<not> success (extract_with_ocr L p) \<Longrightarrow> full_text (extract_with_ocr L p) = []"
  using ocr_result[of L p] by blast

lemma get_text_keys:
  "map (\<lambda>(k, r). (k, full_text r)) rs = map (\<lambda>(k, r). (k, full_text r)) rs' \<Longrightarrow>
     get_text rs key = get_text rs' key"
proof (induction rs arbitrary: rs')
  case Nil
  then show ?case by simp
next
  case (Cons a rs)
  then obtain b rs1 where rs': "rs' = b # rs1" by (cases rs') auto
  obtain k r where a: "a = (k, r)" by (cases a)
  obtain k' r' where b: "b = (k', r')" by (cases b)
  from Cons.prems rs' a b have eq: "k = k'" "full_text r = full_text r'"
    and rest: "map (\<lambda>(k, r). (k, full_text r)) rs = map (\<lambda>(k, r). (k, full_text r)) rs1"
    by simp_all
  from Cons.IH[OF rest] have "get_text rs key = get_text rs1 key" .
  with eq show ?case
    by (simp add: get_text_def rs' a b)
qed

lemma summary_row_compare:
  "summary_row (n, fst (compare_methods L p w)) =
     format_row (short_name n) (length (full_text (extract_with_pymupdf L p)))
       (length (full_text (extract_with_pdfplumber L p)))"
  by (simp add: summary_row_def compare_methods_results get_text_def ustr_def)

lemma ljust_short_name:
  "ljust 50 (short_name n) =
     (if length n > 50 then take 47 n @ ustr ''...'' else n @ replicate (50 - length n) 32)"
  by (simp add: ljust_def short_name_def ustr_def)

lemma print_fields:
  "out_dir (print s w) = out_dir w" "pdf_dir (print s w) = pdf_dir w"
  "ticks (print s w) = ticks w" "now_iso (print s w) = now_iso w" "os_sep (print s w) = os_sep w"
  "open_error (print s w) = open_error w" "stdout (print s w) = stdout w @ [s]"
  by (simp_all add: print_def)





lemma demo_saved:
  "\<not> saved (ustr ''pymupdf'', extract_with_pymupdf demo_libs bad_path)"
  "saved (ustr ''pdfplumber'', extract_with_pdfplumber demo_libs bad_path)"
  "saved (ustr ''pymupdf'', extract_with_pymupdf demo_libs good_path)"
  by (simp_all add: saved_def demo_pymupdf_bad demo_pdfplumber_bad demo_pymupdf_good
        pymupdf_init_def pdfplumber_init_def strip_def py_isspace_def ustr_def nl_def)

lemma demo_base_names:
  "replace (ustr ''b.pdf'') (ustr ''.pdf'') [] = ustr ''b''"
  "replace (ustr ''a.pdf.pdf'') (ustr ''.pdf'') [] = ustr ''a''"
  "replace (ustr ''a.pdf'') (ustr ''.pdf'') [] = ustr ''a''"
  by (simp_all add: replace.simps startswith_def ustr_def)

lemma glob_pdf_Nil: "glob_pdf names = [] \<longleftrightarrow> (\<forall>n \<in> set names. \<not> endswith n (ustr ''.pdf''))"
  by (simp add: glob_pdf_def filter_empty_conv)

lemma main_no_dir:
  assumes "pdf_dir w = None"
  shows "main L w = Inr (w\<lparr>stdout := stdout w @ banner @ [no_dir_message w]\<rparr>)"
  using assms
  by (simp add: main_def Let_def print_def banner_def no_dir_message_def path_str_def)

lemma main_no_pdf:
  assumes "pdf_dir w = Some names" "glob_pdf names = []"
  shows "main L w = Inr (w\<lparr>stdout := stdout w @ banner @ [no_pdf_message w]\<rparr>)"
  using assms
  by (simp add: main_def Let_def print_def banner_def no_pdf_message_def path_str_def)

lemma error_messages_labelled:
  "startswith (no_dir_message w) ([50724, 47448] @ ustr '': '')"
  "startswith (no_pdf_message w) ([50724, 47448] @ ustr '': '')"
  by (simp_all add: startswith_def no_dir_message_def no_pdf_message_def ustr_def)




lemma summary_row_results_of:
  "summary_row (n, results_of L f) =
     format_row (short_name n) (length (full_text (extract_with_pymupdf L f)))
       (length (full_text (extract_with_pdfplumber L f)))"
  by (simp add: summary_row_def results_of_def get_text_def ustr_def)


lemma demo_pdfplumber_good:
  "extract_with_pdfplumber demo_libs good_path = extract_with_pdfplumber demo_libs bad_path"
  by (simp add: extract_with_pdfplumber_def demo_defs)

lemma demo_lengths:
  "length (full_text (extract_with_pymupdf demo_libs good_path)) = 4"
  "length (full_text (extract_with_pdfplumber demo_libs good_path)) = 3"
  "length (full_text (extract_with_pymupdf demo_libs bad_path)) = 0"
  "length (full_text (extract_with_pdfplumber demo_libs bad_path)) = 3"
  by (simp_all add: demo_pymupdf_good demo_pymupdf_bad demo_pdfplumber_good demo_pdfplumber_bad
        pymupdf_init_def ustr_def nl_def)

lemma utf8_ok_simps:
  "utf8_ok []" "utf8_ok (c # s) \<longleftrightarrow> \<not> surrogate c \<and> utf8_ok s"
  "utf8_ok (a @ b) \<longleftrightarrow> utf8_ok a \<and> utf8_ok b"
  "utf8_ok (replicate n c) \<longleftrightarrow> n = 0 \<or> \<not> surrogate c"
  by (auto simp: utf8_ok_def list_all_iff)

lemma utf8_ok_take: "utf8_ok s \<Longrightarrow> utf8_ok (take n s)"
  by (auto simp: utf8_ok_def list_all_iff dest: in_set_takeD)

lemma utf8_ok_drop: "utf8_ok s \<Longrightarrow> utf8_ok (drop n s)"
  by (auto simp: utf8_ok_def list_all_iff dest: in_set_dropD)

lemma of_char_small: "(of_char c :: nat) < 256"
proof -
  have "(of_char c :: nat) mod 256 < 256" by simp
  then show ?thesis by (simp only: of_char_mod_256)
qed

lemma utf8_ok_ustr: "utf8_ok (ustr s)"
proof -
  have "\<not> surrogate (of_char c)" for c :: char
    using of_char_small[of c] unfolding surrogate_def by linarith
  then show ?thesis
    by (simp add: utf8_ok_def ustr_def list_all_iff)
qed

lemma utf8_ok_digits: "utf8_ok (digits n)"
proof (induction n rule: digits.induct)
  case (1 n)
  show ?case
  proof (cases "n < 10")
    case True
    then show ?thesis by (simp add: digits.simps[of n] utf8_ok_simps surrogate_def)
  next
    case False
    have "n mod 10 < 10" by simp
    then have "\<not> surrogate (48 + n mod 10)" by (simp add: surrogate_def)
    with False "1.IH" show ?thesis by (simp add: digits.simps[of n] utf8_ok_simps)
  qed
qed

lemma utf8_ok_group3: "utf8_ok ds \<Longrightarrow> utf8_ok (group3 ds)"
proof (induction ds rule: group3.induct)
  case (1 ds)
  show ?case
  proof (cases "length ds \<le> 3")
    case True
    with "1.prems" show ?thesis by (simp add: group3.simps[of ds])
  next
    case False
    with "1.IH" "1.prems" show ?thesis
      by (simp add: group3.simps[of ds] utf8_ok_simps utf8_ok_take utf8_ok_drop surrogate_def)
  qed
qed

lemma utf8_ok_fmt_commas: "utf8_ok (fmt_commas n)"
  by (simp add: fmt_commas_def utf8_ok_group3 utf8_ok_digits)




lemma file_pieces_ok:
  "list_all utf8_ok (file_pieces pdf_name r stamp) \<longleftrightarrow>
     utf8_ok (method_str r) \<and> utf8_ok pdf_name \<and> utf8_ok stamp \<and> utf8_ok (full_text r)"
  by (auto simp: file_pieces_def utf8_ok_simps utf8_ok_ustr utf8_ok_fmt_commas utf8_ok_digits
        nl_def surrogate_def)



lemma takeWhile_all: "list_all P xs \<Longrightarrow> takeWhile P xs = xs"
  by (simp add: list_all_iff)


lemma write_file_ok:
  assumes "out_dir w = Dir fs" "open_error w name = None" "list_all utf8_ok pieces"
  shows "write_file name pieces k w =
           Inr (w\<lparr>out_dir := Dir (fs @ [(name, concat pieces)]), ticks := ticks w + 1\<rparr>)"
  using assms by (simp add: write_file_def takeWhile_all Let_def)



lemma save_loop_skip:
  "\<not> saved (m, r) \<Longrightarrow> save_loop pdf_name base ((m, r) # rest) w = save_loop pdf_name base rest w"
  by (auto simp: saved_def)

lemma save_loop_step:
  "saved (m, r) \<Longrightarrow>
     save_loop pdf_name base ((m, r) # rest) w =
       (case write_file (output_name base m)
               (file_pieces pdf_name r (now_iso w (ticks w))) 2 w of
          Inl x \<Rightarrow> Inl x
        | Inr w \<Rightarrow> save_loop pdf_name base rest (print (saved_message (output_name base m)) w))"
  by (auto simp: saved_def Let_def)

lemma save_loop_ok:
  assumes "out_dir w = Dir fs" "clock_ok w" "utf8_ok pdf_name"
    "\<forall>entry \<in> set results. saved entry \<longrightarrow> can_write w base entry"
  shows "\<exists>w' new. save_loop pdf_name base results w = Inr w' \<and> out_dir w' = Dir (fs @ new) \<and>
       map fst new = map (\<lambda>(m, r). output_name base m) (filter saved results) \<and>
       pdf_dir w' = pdf_dir w \<and> now_iso w' = now_iso w \<and> os_sep w' = os_sep w \<and>
       open_error w' = open_error w"
  using assms
proof (induction results arbitrary: w fs)
  case Nil
  then show ?case by simp
next
  case (Cons entry rest)
  obtain m r where entry: "entry = (m, r)" by (cases entry)
  have rest_ok: "\<forall>entry \<in> set rest. saved entry \<longrightarrow> can_write w base entry"
    using Cons.prems(4) by simp
  show ?case
  proof (cases "saved (m, r)")
    case False
    from Cons.IH[OF Cons.prems(1-3) rest_ok] False show ?thesis
      by (simp add: entry save_loop_skip del: save_loop.simps)
  next
    case True
    define c where "c = concat (file_pieces pdf_name r (now_iso w (ticks w)))"
    define w1 where
      "w1 = print (saved_message (output_name base m))
              (w\<lparr>out_dir := Dir (fs @ [(output_name base m, c)]), ticks := ticks w + 1\<rparr>)"
    from True Cons.prems(4) have cw: "can_write w base (m, r)"
      by (simp add: entry)
    then have op: "open_error w (output_name base m) = None"
      by (simp add: can_write_def)
    have "list_all utf8_ok (file_pieces pdf_name r (now_iso w (ticks w)))"
      using cw Cons.prems(2,3) by (simp add: file_pieces_ok can_write_def clock_ok_def)
    from write_file_ok[OF Cons.prems(1) op this]
    have step: "save_loop pdf_name base (entry # rest) w = save_loop pdf_name base rest w1"
      using True by (simp add: entry save_loop_step w1_def c_def del: save_loop.simps)
    have d1: "out_dir w1 = Dir (fs @ [(output_name base m, c)])"
      and k1: "clock_ok w1" "now_iso w1 = now_iso w" "open_error w1 = open_error w"
        "pdf_dir w1 = pdf_dir w" "os_sep w1 = os_sep w"
      using Cons.prems(2) by (simp_all add: w1_def print_fields clock_ok_def)
    have ok1: "\<forall>entry \<in> set rest. saved entry \<longrightarrow> can_write w1 base entry"
      using rest_ok k1(3) by (simp add: can_write_def)
    from Cons.IH[OF d1 k1(1) Cons.prems(3) ok1] obtain w' new where
      run: "save_loop pdf_name base rest w1 = Inr w'" and
      dir: "out_dir w' = Dir ((fs @ [(output_name base m, c)]) @ new)" and
      names: "map fst new = map (\<lambda>(m, r). output_name base m) (filter saved rest)" and
      keep: "pdf_dir w' = pdf_dir w1 \<and> now_iso w' = now_iso w1 \<and> os_sep w' = os_sep w1 \<and>
             open_error w' = open_error w1"
      by blast
    have "out_dir w' = Dir (fs @ ((output_name base m, c) # new))"
      using dir by simp
    moreover have "map fst ((output_name base m, c) # new) =
        map (\<lambda>(m, r). output_name base m) (filter saved (entry # rest))"
      using names True by (simp add: entry)
    moreover have "pdf_dir w' = pdf_dir w \<and> now_iso w' = now_iso w \<and> os_sep w' = os_sep w \<and>
        open_error w' = open_error w"
      using keep k1 by simp
    ultimately show ?thesis using step run by metis
  qed
qed



lemma mkdir_ok:
  "out_dir w \<noteq> NotADir \<Longrightarrow>
     \<exists>w'. mkdir_exist_ok w = Inr w' \<and> out_dir w' = Dir (dir_files (out_dir w)) \<and>
       pdf_dir w' = pdf_dir w \<and> now_iso w' = now_iso w \<and> os_sep w' = os_sep w \<and>
       open_error w' = open_error w \<and> stdout w' = stdout w \<and> ticks w' = ticks w"
  by (cases "out_dir w") (simp_all add: mkdir_exist_ok_def dir_files_def)

lemma mkdir_raises:
  "out_dir w = NotADir \<Longrightarrow> \<exists>e. mkdir_exist_ok w = Inl (e, w)"
  by (simp add: mkdir_exist_ok_def)

lemma save_results_ok:
  assumes "out_dir w \<noteq> NotADir" "clock_ok w" "utf8_ok pdf_name"
    "\<forall>entry \<in> set results. saved entry \<longrightarrow>
       can_write w (replace pdf_name (ustr ''.pdf'') []) entry"
  shows "\<exists>w' new. save_results pdf_name results w = Inr w' \<and>
       out_dir w' = Dir (dir_files (out_dir w) @ new) \<and>
       map fst new =
         map (\<lambda>(m, r). output_name (replace pdf_name (ustr ''.pdf'') []) m) (filter saved results) \<and>
       pdf_dir w' = pdf_dir w \<and> now_iso w' = now_iso w \<and> os_sep w' = os_sep w \<and>
       open_error w' = open_error w"
proof -
  from mkdir_ok[OF assms(1)] obtain w1 where
    m: "mkdir_exist_ok w = Inr w1" and d: "out_dir w1 = Dir (dir_files (out_dir w))" and
    k: "pdf_dir w1 = pdf_dir w" "now_iso w1 = now_iso w" "os_sep w1 = os_sep w"
       "open_error w1 = open_error w"
    by blast
  have c1: "clock_ok w1" using assms(2) k(2) by (simp add: clock_ok_def)
  have ok1: "\<forall>entry \<in> set results. saved entry \<longrightarrow>
       can_write w1 (replace pdf_name (ustr ''.pdf'') []) entry"
    using assms(4) k(4) by (simp add: can_write_def)
  from save_loop_ok[OF d c1 assms(3) ok1] obtain w' new where
    "save_loop pdf_name (replace pdf_name (ustr ''.pdf'') []) results w1 = Inr w'"
    "out_dir w' = Dir (dir_files (out_dir w) @ new)"
    "map fst new =
       map (\<lambda>(m, r). output_name (replace pdf_name (ustr ''.pdf'') []) m) (filter saved results)"
    "pdf_dir w' = pdf_dir w1 \<and> now_iso w' = now_iso w1 \<and> os_sep w' = os_sep w1 \<and>
     open_error w' = open_error w1"
    by blast
  with m k show ?thesis by (simp add: save_results_def)
qed





lemma demo_method_ok:
  "utf8_ok (method_str (extract_with_pymupdf demo_libs good_path))"
  "utf8_ok (full_text (extract_with_pymupdf demo_libs good_path))"
  "utf8_ok (method_str (extract_with_pdfplumber demo_libs bad_path))"
  "utf8_ok (full_text (extract_with_pdfplumber demo_libs bad_path))"
  by (simp_all add: demo_pymupdf_good demo_pdfplumber_bad pymupdf_init_def pdfplumber_init_def
        utf8_ok_simps utf8_ok_ustr surrogate_def nl_def)

lemma demo_world_ok:
  "out_dir demo_world \<noteq> NotADir" "clock_ok demo_world" "open_error demo_world name = None"
  "dir_files (out_dir demo_world) = []"
  by (simp_all add: demo_world_def clock_ok_def utf8_ok_ustr dir_files_def)

lemma decimal_snoc: "decimal (ds @ [c]) = 10 * decimal ds + (c - 48)"
  by (simp add: decimal_def)

lemma digits_are_digits: "c \<in> set (digits n) \<Longrightarrow> is_digit c"
proof (induction n rule: digits.induct)
  case (1 n)
  show ?case
  proof (cases "n < 10")
    case True
    with "1.prems" show ?thesis by (simp add: digits.simps[of n] is_digit_def)
  next
    case False
    have "n mod 10 < 10" by simp
    then have "is_digit (48 + n mod 10)" by (simp add: is_digit_def)
    with False "1.IH" "1.prems" show ?thesis by (auto simp: digits.simps[of n])
  qed
qed

lemma decimal_digits: "decimal (digits n) = n"
proof (induction n rule: digits.induct)
  case (1 n)
  show ?case
  proof (cases "n < 10")
    case True
    then show ?thesis by (simp add: digits.simps[of n] decimal_def)
  next
    case False
    with "1.IH" show ?thesis by (simp add: digits.simps[of n] decimal_snoc)
  qed
qed

lemma filter_digit_group3: "filter is_digit (group3 ds) = filter is_digit ds"
proof (induction ds rule: group3.induct)
  case (1 ds)
  show ?case
  proof (cases "length ds \<le> 3")
    case True
    then show ?thesis by (simp add: group3.simps[of ds])
  next
    case False
    have comma: "\<not> is_digit 44" by (simp add: is_digit_def)
    have "filter is_digit (group3 ds) =
          filter is_digit (take (length ds - 3) ds) @ filter is_digit (drop (length ds - 3) ds)"
      using False "1.IH" comma by (simp add: group3.simps[of ds])
    also have "\<dots> = filter is_digit (take (length ds - 3) ds @ drop (length ds - 3) ds)"
      by (simp only: filter_append)
    also have "\<dots> = filter is_digit ds"
      by (simp only: append_take_drop_id)
    finally show ?thesis .
  qed
qed

lemma read_count_fmt_commas: "read_count (fmt_commas n) = n"
proof -
  have "filter is_digit (digits n) = digits n"
    by (simp add: filter_id_conv digits_are_digits)
  then show ?thesis
    by (simp add: read_count_def fmt_commas_def filter_digit_group3 decimal_digits)
qed

lemma read_count_rjust: "read_count (rjust w (fmt_commas n)) = n"
proof -
  have "filter is_digit (replicate k 32) = []" for k
    by (simp add: is_digit_def)
  then have "read_count (rjust w (fmt_commas n)) = read_count (fmt_commas n)"
    by (simp add: read_count_def rjust_def)
  then show ?thesis by (simp add: read_count_fmt_commas)
qed

lemma fmt_commas_0: "fmt_commas 0 = [48]"
  by (simp add: fmt_commas_def digits.simps group3.simps)

lemma summary_row_rendered:
  "summary_row (n, results_of L f) =
     ljust 50 (short_name n) @ [32] @
     rjust 12 (fmt_commas (length (full_text (extract_with_pymupdf L f)))) @ [32] @
     rjust 12 (fmt_commas (length (full_text (extract_with_pdfplumber L f)))) @ [10]"
  by (simp add: summary_row_results_of format_row_def ustr_def nl_def)




lemma summary_row_table:
  "summary_row (n, results_of L f) =
     table_row n (fmt_commas (length (full_text (extract_with_pymupdf L f))))
                 (fmt_commas (length (full_text (extract_with_pdfplumber L f))))"
  by (simp add: summary_row_rendered ljust_short_name rjust_def table_row_def ustr_def)





lemma summary_row_compare_table:
  "summary_row (n, fst (compare_methods L p w)) =
     table_row n (fmt_commas (length (full_text (extract_with_pymupdf L p))))
                 (fmt_commas (length (full_text (extract_with_pdfplumber L p))))"
  using summary_row_table[of n L p] by (simp add: compare_methods_results results_of_def)

lemma join_empties:
  "\<forall>t \<in> set ts. t = [] \<Longrightarrow> join sep ts = concat (replicate (length ts - 1) sep)"
  by (induction sep ts rule: join.induct) simp_all

lemma join_nl_empties:
  "\<forall>t \<in> set ts. t = [] \<Longrightarrow> join nl ts = replicate (length ts - 1) 10"
proof -
  have "concat (replicate k [c]) = replicate k c" for k and c :: nat
    by (induction k) simp_all
  then show "\<forall>t \<in> set ts. t = [] \<Longrightarrow> join nl ts = replicate (length ts - 1) 10"
    by (simp add: join_empties nl_def)
qed

lemma returned_length: "first_raise xs = None \<Longrightarrow> length (returned xs) = length xs"
  by (induction xs rule: first_raise.induct) simp_all

lemma pymupdf_textless:
  assumes "fitz_open L p = Returns doc" "fitz_failure L p = None"
    "\<forall>t \<in> set (returned (doc_pages doc)). t = []"
  shows "success (extract_with_pymupdf L p) \<and>
         full_text (extract_with_pymupdf L p) = replicate (length (doc_pages doc) - 1) 10"
proof -
  from pymupdf_failure_None[OF assms(2)] assms(1) have
    s: "success (extract_with_pymupdf L p)" and
    t: "full_text (extract_with_pymupdf L p) = join nl (returned (doc_pages doc))"
    by auto
  from assms(1,2) have "first_raise (doc_pages doc) = None"
    by (simp add: fitz_failure_def)
  then have "length (returned (doc_pages doc)) = length (doc_pages doc)"
    by (rule returned_length)
  with s t join_nl_empties[OF assms(3)] show ?thesis by simp
qed

lemma pdfplumber_textless:
  assumes "pdfplumber_open L p = Returns pdf" "pdf_pages pdf = Returns pgs"
    "plumber_failure L p = None" "\<forall>pg \<in> set pgs. text_or_empty pg = []"
  shows "success (extract_with_pdfplumber L p) \<and>
         full_text (extract_with_pdfplumber L p) = replicate (length pgs - 1) 10"
proof -
  from pdfplumber_failure_None[OF assms(3)] assms(1,2) have
    s: "success (extract_with_pdfplumber L p)" and
    t: "full_text (extract_with_pdfplumber L p) = join nl (map text_or_empty pgs)"
    by auto
  have "\<forall>t \<in> set (map text_or_empty pgs). t = []"
    using assms(4) by simp
  from join_nl_empties[OF this] s t show ?thesis by simp
qed

lemma demo_scan:
  "fitz_open demo_libs scan_path =
     Returns \<lparr>doc_pages = [Returns [], Returns []], doc_close = Returns ()\<rparr>"
  "fitz_failure demo_libs scan_path = None"
  "pdfplumber_open demo_libs scan_path = Returns \<lparr>pdf_pages = Returns
     [\<lparr>extract_text = Returns None, extract_tables = Returns []\<rparr>,
      \<lparr>extract_text = Returns None, extract_tables = Returns []\<rparr>]\<rparr>"
  "plumber_failure demo_libs scan_path = None"
  by (simp_all add: demo_defs fitz_failure_def plumber_failure_def page_raise_def)

lemma demo_blank:
  "fitz_open demo_libs blank_path =
     Returns \<lparr>doc_pages = [Returns []], doc_close = Returns ()\<rparr>"
  "fitz_failure demo_libs blank_path = None"
  "pdfplumber_open demo_libs blank_path = Returns \<lparr>pdf_pages = Returns
     [\<lparr>extract_text = Returns None, extract_tables = Returns []\<rparr>]\<rparr>"
  "plumber_failure demo_libs blank_path = None"
  by (simp_all add: demo_defs fitz_failure_def plumber_failure_def page_raise_def)

lemma demo_broken:
  "\<not> success (extract_with_pymupdf broken_libs p)"
  "full_text (extract_with_pymupdf broken_libs p) = []"
  "\<not> success (extract_with_pdfplumber broken_libs p)"
  "full_text (extract_with_pdfplumber broken_libs p) = []"
proof -
  have "fitz_failure broken_libs p = Some demo_exn"
    by (simp add: fitz_failure_def broken_libs_def)
  from pymupdf_failure_Some[OF this]
  show "\<not> success (extract_with_pymupdf broken_libs p)"
    "full_text (extract_with_pymupdf broken_libs p) = []" by simp_all
  have "plumber_failure broken_libs p = Some demo_exn"
    by (simp add: plumber_failure_def broken_libs_def)
  from pdfplumber_failure_Some[OF this]
  show "\<not> success (extract_with_pdfplumber broken_libs p)"
    "full_text (extract_with_pdfplumber broken_libs p) = []" by simp_all
qed

lemma demo_scan_texts:
  "success (extract_with_pymupdf demo_libs scan_path)"
  "full_text (extract_with_pymupdf demo_libs scan_path) = nl"
  "success (extract_with_pdfplumber demo_libs scan_path)"
  "full_text (extract_with_pdfplumber demo_libs scan_path) = nl"
proof -
  from pymupdf_textless[OF demo_scan(1,2)]
  show "success (extract_with_pymupdf demo_libs scan_path)"
    "full_text (extract_with_pymupdf demo_libs scan_path) = nl"
    by (simp_all add: nl_def)
  from pdfplumber_textless[OF demo_scan(3) _ demo_scan(4)]
  show "success (extract_with_pdfplumber demo_libs scan_path)"
    "full_text (extract_with_pdfplumber demo_libs scan_path) = nl"
    by (simp_all add: nl_def text_or_empty_def)
qed




text \<open>
  C2. Both text-layer extractors return a result on every input. When neither opening
  the document nor reading a page raises, \<open>success\<close> is true (and \<open>error\<close> stays
  \<open>None\<close>, for PyMuPDF when \<open>close\<close> returns too). When opening or reading raises
  \<open>e\<close>, \<open>success\<close> is false and \<open>error\<close> is exactly \<open>str(e)\<close>. \<open>compare_methods\<close>
  returns the results of both extractors for the same path, whatever either of them did.
\<close>

theorem extraction_errors_isolated:
  "(fitz_failure L p = None \<longrightarrow> success (extract_with_pymupdf L p)) \<and>
   (fitz_failure L p = None \<and> (\<forall>doc. fitz_open L p = Returns doc \<longrightarrow> doc_close doc = Returns ())
      \<longrightarrow> error (extract_with_pymupdf L p) = None) \<and>
   (\<forall>e. fitz_failure L p = Some e \<longrightarrow>
      \<not> success (extract_with_pymupdf L p) \<and>
      error (extract_with_pymupdf L p) = Some (exn_str e)) \<and>
   (plumber_failure L p = None \<longrightarrow>
      success (extract_with_pdfplumber L p) \<and> error (extract_with_pdfplumber L p) = None) \<and>
   (\<forall>e. plumber_failure L p = Some e \<longrightarrow>
      \<not> success (extract_with_pdfplumber L p) \<and>
      error (extract_with_pdfplumber L p) = Some (exn_str e)) \<and>
   fst (compare_methods L p w) =
     [(ustr ''pymupdf'', extract_with_pymupdf L p),
      (ustr ''pdfplumber'', extract_with_pdfplumber L p)]"
proof -
  have a: "fitz_failure L p = None \<longrightarrow> success (extract_with_pymupdf L p)"
    using pymupdf_failure_None[of L p] by auto
  have b: "fitz_failure L p = None \<and>
        (\<forall>doc. fitz_open L p = Returns doc \<longrightarrow> doc_close doc = Returns ())
      \<longrightarrow> error (extract_with_pymupdf L p) = None"
    using pymupdf_failure_None[of L p] by auto
  have c: "\<forall>e. fitz_failure L p = Some e \<longrightarrow>
      \<not> success (extract_with_pymupdf L p) \<and>
      error (extract_with_pymupdf L p) = Some (exn_str e)"
    using pymupdf_failure_Some[of L p] by auto
  have d: "plumber_failure L p = None \<longrightarrow>
      success (extract_with_pdfplumber L p) \<and> error (extract_with_pdfplumber L p) = None"
    using pdfplumber_failure_None[of L p] by auto
  have e: "\<forall>e. plumber_failure L p = Some e \<longrightarrow>
      \<not> success (extract_with_pdfplumber L p) \<and>
      error (extract_with_pdfplumber L p) = Some (exn_str e)"
    using pdfplumber_failure_Some[of L p] by auto
  from a b c d e compare_methods_results[of L p w] show ?thesis by blast
qed

theorem extraction_errors_isolated_witness:
  "fitz_failure demo_libs bad_path = Some demo_exn \<and>
   \<not> success (extract_with_pymupdf demo_libs bad_path) \<and>
   error (extract_with_pymupdf demo_libs bad_path) = Some (ustr ''cannot load page'') \<and>
   plumber_failure demo_libs bad_path = None \<and>
   success (extract_with_pdfplumber demo_libs bad_path) \<and>
   error (extract_with_pdfplumber demo_libs bad_path) = None \<and>
   fitz_failure demo_libs good_path = None \<and>
   success (extract_with_pymupdf demo_libs good_path) \<and>
   error (extract_with_pymupdf demo_libs good_path) = None \<and>
   plumber_failure demo_libs [] = Some (Exn OtherException (ustr ''no such file'')) \<and>
   \<not> success (extract_with_pdfplumber demo_libs []) \<and>
   error (extract_with_pdfplumber demo_libs []) = Some (ustr ''no such file'')"
proof -
  have f1: "fitz_failure demo_libs bad_path = Some demo_exn"
    by (simp add: fitz_failure_def demo_defs)
  have f2: "plumber_failure demo_libs bad_path = None"
    by (simp add: plumber_failure_def page_raise_def demo_defs)
  have f3: "fitz_failure demo_libs good_path = None"
    by (simp add: fitz_failure_def demo_defs)
  have f4: "\<forall>doc. fitz_open demo_libs good_path = Returns doc \<longrightarrow> doc_close doc = Returns ()"
    by (simp add: demo_defs)
  have f5: "plumber_failure demo_libs [] = Some (Exn OtherException (ustr ''no such file''))"
    by (simp add: plumber_failure_def demo_defs)
  have s: "exn_str demo_exn = ustr ''cannot load page''"
    by (simp add: demo_exn_def)
  show ?thesis
    using extraction_errors_isolated[of demo_libs bad_path demo_world]
      extraction_errors_isolated[of demo_libs good_path demo_world]
      extraction_errors_isolated[of demo_libs "[]" demo_world]
      f1 f2 f3 f4 f5 s
    by simp
qed

text \<open>
  C3. The name of an output file is \<open>base_name\<close>, an underscore, the method key and
  \<open>.txt\<close>, where \<open>base_name = pdf_name.replace(".pdf", "")\<close>. The comment above that line
  says that it removes the extension; \<open>replace\<close> removes every occurrence of \<open>.pdf\<close>. For
  the input file \<open>a.pdf.pdf\<close> the file written for the method \<open>pymupdf\<close> is
  \<open>a_pymupdf.txt\<close>, not \<open>a.pdf_pymupdf.txt\<close>: the rest of the name is not preserved.
\<close>

theorem extension_removed_at_every_occurrence:
  "\<exists>w' c. save_results (ustr ''a.pdf.pdf'')
             [(ustr ''pymupdf'', extract_with_pymupdf demo_libs good_path)] demo_world = Inr w' \<and>
           out_dir w' = Dir [(ustr ''a_pymupdf.txt'', c)] \<and>
           ustr ''a_pymupdf.txt'' \<noteq> ustr ''a.pdf_pymupdf.txt''"
proof -
  let ?rs = "[(ustr ''pymupdf'', extract_with_pymupdf demo_libs good_path)]"
  have cw: "\<forall>entry \<in> set ?rs. saved entry \<longrightarrow>
              can_write demo_world (replace (ustr ''a.pdf.pdf'') (ustr ''.pdf'') []) entry"
    by (simp add: can_write_def demo_world_ok demo_method_ok)
  from save_results_ok[OF demo_world_ok(1,2) utf8_ok_ustr cw]
  obtain w' new where
    run: "save_results (ustr ''a.pdf.pdf'') ?rs demo_world = Inr w'" and
    dir: "out_dir w' = Dir (dir_files (out_dir demo_world) @ new)" and
    names: "map fst new =
           map (\<lambda>(m, r). output_name (replace (ustr ''a.pdf.pdf'') (ustr ''.pdf'') []) m)
             (filter saved ?rs)"
    by blast
  from names have "map fst new = [output_name (ustr ''a'') (ustr ''pymupdf'')]"
    using demo_saved(3) by (simp add: demo_base_names)
  then have "map fst new = [ustr ''a_pymupdf.txt'']"
    by (simp add: output_name_def ustr_def)
  then obtain c where "new = [(ustr ''a_pymupdf.txt'', c)]"
    by (cases new) auto
  with dir have "out_dir w' = Dir [(ustr ''a_pymupdf.txt'', c)]"
    by (simp add: demo_world_ok)
  moreover have "ustr ''a_pymupdf.txt'' \<noteq> ustr ''a.pdf_pymupdf.txt''"
    by (simp add: ustr_def)
  ultimately show ?thesis using run by blast
qed




text \<open>
  C5. When nothing is at \<open>PDF_DIR\<close>, or no name in it ends with \<open>.pdf\<close>, \<open>main\<close> returns
  normally, and the state it leaves differs from the one it started in only by four
  printed strings, the banner and one error message (beginning with the Korean word for
  error): \<open>OUTPUT_DIR\<close> is as it was, so no directory was created and no file written, and
  the clock was not read.
\<close>

theorem no_input_no_output:
  "(pdf_dir w = None \<longrightarrow>
      main L w = Inr (w\<lparr>stdout := stdout w @ banner @ [no_dir_message w]\<rparr>)) \<and>
   (\<forall>names. pdf_dir w = Some names \<and> (\<forall>n \<in> set names. \<not> endswith n (ustr ''.pdf'')) \<longrightarrow>
      main L w = Inr (w\<lparr>stdout := stdout w @ banner @ [no_pdf_message w]\<rparr>)) \<and>
   startswith (no_dir_message w) ([50724, 47448] @ ustr '': '') \<and>
   startswith (no_pdf_message w) ([50724, 47448] @ ustr '': '') \<and>
   (pdf_dir w = None \<or>
    (\<exists>names. pdf_dir w = Some names \<and> (\<forall>n \<in> set names. \<not> endswith n (ustr ''.pdf''))) \<longrightarrow>
      (\<exists>w'. main L w = Inr w' \<and> out_dir w' = out_dir w \<and> pdf_dir w' = pdf_dir w \<and>
            ticks w' = ticks w \<and> length (stdout w') = length (stdout w) + 4))"
proof -
  have a: "pdf_dir w = None \<longrightarrow>
      main L w = Inr (w\<lparr>stdout := stdout w @ banner @ [no_dir_message w]\<rparr>)"
    using main_no_dir[of w L] by blast
  have b: "\<forall>names. pdf_dir w = Some names \<and> (\<forall>n \<in> set names. \<not> endswith n (ustr ''.pdf'')) \<longrightarrow>
      main L w = Inr (w\<lparr>stdout := stdout w @ banner @ [no_pdf_message w]\<rparr>)"
    using main_no_pdf[of w _ L] glob_pdf_Nil by blast
  have c: "pdf_dir w = None \<or>
    (\<exists>names. pdf_dir w = Some names \<and> (\<forall>n \<in> set names. \<not> endswith n (ustr ''.pdf''))) \<longrightarrow>
      (\<exists>w'. main L w = Inr w' \<and> out_dir w' = out_dir w \<and> pdf_dir w' = pdf_dir w \<and>
            ticks w' = ticks w \<and> length (stdout w') = length (stdout w) + 4)"
  proof
    assume "pdf_dir w = None \<or>
      (\<exists>names. pdf_dir w = Some names \<and> (\<forall>n \<in> set names. \<not> endswith n (ustr ''.pdf'')))"
    then have "\<exists>msg. main L w = Inr (w\<lparr>stdout := stdout w @ banner @ [msg]\<rparr>)"
    proof
      assume "pdf_dir w = None"
      with a show ?thesis by blast
    next
      assume "\<exists>names. pdf_dir w = Some names \<and> (\<forall>n \<in> set names. \<not> endswith n (ustr ''.pdf''))"
      with b show ?thesis by blast
    qed
    then obtain msg where "main L w = Inr (w\<lparr>stdout := stdout w @ banner @ [msg]\<rparr>)" ..
    then show "\<exists>w'. main L w = Inr w' \<and> out_dir w' = out_dir w \<and> pdf_dir w' = pdf_dir w \<and>
            ticks w' = ticks w \<and> length (stdout w') = length (stdout w) + 4"
      by (simp add: banner_def)
  qed
  show ?thesis
    by (intro conjI) (rule a b c error_messages_labelled)+
qed

theorem no_input_no_output_witness:
  "(\<exists>w'. main demo_libs (demo_world\<lparr>pdf_dir := None\<rparr>) = Inr w' \<and> out_dir w' = Absent \<and>
         length (stdout w') = 4) \<and>
   (\<exists>w'. main demo_libs (demo_world\<lparr>pdf_dir := Some [ustr ''notes.txt'']\<rparr>) = Inr w' \<and>
         out_dir w' = Absent \<and> length (stdout w') = 4)"
proof -
  let ?w1 = "demo_world\<lparr>pdf_dir := None\<rparr>"
  let ?w2 = "demo_world\<lparr>pdf_dir := Some [ustr ''notes.txt'']\<rparr>"
  note t1 = no_input_no_output[of ?w1 demo_libs, THEN conjunct2, THEN conjunct2, THEN conjunct2,
              THEN conjunct2, rule_format]
  note t2 = no_input_no_output[of ?w2 demo_libs, THEN conjunct2, THEN conjunct2, THEN conjunct2,
              THEN conjunct2, rule_format]
  have "\<exists>w'. main demo_libs ?w1 = Inr w' \<and> out_dir w' = out_dir ?w1 \<and>
          pdf_dir w' = pdf_dir ?w1 \<and> ticks w' = ticks ?w1 \<and>
          length (stdout w') = length (stdout ?w1) + 4"
    by (rule t1) simp
  moreover have "\<exists>w'. main demo_libs ?w2 = Inr w' \<and> out_dir w' = out_dir ?w2 \<and>
          pdf_dir w' = pdf_dir ?w2 \<and> ticks w' = ticks ?w2 \<and>
          length (stdout w') = length (stdout ?w2) + 4"
    by (rule t2) (simp add: endswith_def ustr_def)
  moreover have "out_dir ?w1 = Absent" "stdout ?w1 = []" "out_dir ?w2 = Absent" "stdout ?w2 = []"
    by (simp_all add: demo_world_def)
  ultimately show ?thesis
    by (metis add_0 list.size(3))
qed

text \<open>
  C6. In a row of the summary table a file name longer than 50 characters appears as its
  first 47 characters followed by \<open>...\<close>, 50 characters in all, and a name of at most 50
  characters appears unchanged (followed by the spaces that fill the column of width 50).
\<close>

theorem long_names_truncated:
  "(length n > 50 \<longrightarrow> short_name n = take 47 n @ ustr ''...'' \<and> length (short_name n) = 50) \<and>
   (length n \<le> 50 \<longrightarrow> short_name n = n) \<and>
   take (length (short_name n)) (summary_row (n, rs)) = short_name n \<and>
   take 50 (summary_row (n, rs)) =
     (if length n > 50 then take 47 n @ ustr ''...'' else n @ replicate (50 - length n) 32)"
proof (intro conjI impI)
  assume "length n > 50"
  then show "short_name n = take 47 n @ ustr ''...''" "length (short_name n) = 50"
    by (simp_all add: short_name_def ustr_def)
next
  assume "length n \<le> 50"
  then show "short_name n = n" by (simp add: short_name_def)
next
  show "take (length (short_name n)) (summary_row (n, rs)) = short_name n"
    by (simp add: summary_row_def format_row_def ljust_def Let_def)
next
  have "length (ljust 50 (short_name n)) = 50"
    by (simp add: ljust_def short_name_def ustr_def)
  then have "take 50 (summary_row (n, rs)) = ljust 50 (short_name n)"
    by (simp add: summary_row_def format_row_def Let_def)
  then show "take 50 (summary_row (n, rs)) =
     (if length n > 50 then take 47 n @ ustr ''...'' else n @ replicate (50 - length n) 32)"
    by (simp only: ljust_short_name)
qed

theorem long_names_truncated_witness:
  "length (replicate 60 (97::nat)) > 50 \<and>
   short_name (replicate 60 97) = replicate 47 97 @ ustr ''...'' \<and>
   length (short_name (replicate 60 97)) = 50 \<and>
   length (ustr ''a.pdf'') \<le> 50 \<and>
   short_name (ustr ''a.pdf'') = ustr ''a.pdf''"
  using long_names_truncated[of "replicate 60 97" "[]"] long_names_truncated[of "ustr ''a.pdf''" "[]"]
  by (simp add: ustr_def)

text \<open>
  C7. When a text-layer extraction succeeds, the full text is the texts of the page
  entries joined with a newline, in page order. When every page is read, there is one
  entry per page with the text the library returned, where for pdfplumber a page without
  text (\<open>None\<close>) contributes the empty string. A document without text on any page gives
  a successful result whose full text is empty after \<open>strip\<close>, and no error.
\<close>

theorem full_text_joins_page_texts:
  "(success (extract_with_pymupdf L p) \<longrightarrow>
      full_text (extract_with_pymupdf L p) =
        join nl (map ptext (pages (extract_with_pymupdf L p)))) \<and>
   (success (extract_with_pdfplumber L p) \<longrightarrow>
      full_text (extract_with_pdfplumber L p) =
        join nl (map ptext (pages (extract_with_pdfplumber L p)))) \<and>
   (\<forall>doc ts. fitz_open L p = Returns doc \<and> doc_pages doc = map Returns ts \<longrightarrow>
      success (extract_with_pymupdf L p) \<and>
      map ptext (pages (extract_with_pymupdf L p)) = ts \<and>
      full_text (extract_with_pymupdf L p) = join nl ts) \<and>
   (\<forall>pdf pgs. pdfplumber_open L p = Returns pdf \<and> pdf_pages pdf = Returns pgs \<and>
        pages_raise pgs = None \<longrightarrow>
      success (extract_with_pdfplumber L p) \<and>
      map ptext (pages (extract_with_pdfplumber L p)) = map text_or_empty pgs \<and>
      full_text (extract_with_pdfplumber L p) = join nl (map text_or_empty pgs)) \<and>
   (\<forall>pg. extract_text pg = Returns None \<longrightarrow> text_or_empty pg = []) \<and>
   (\<forall>pg s. extract_text pg = Returns (Some s) \<longrightarrow> text_or_empty pg = s) \<and>
   (\<forall>doc n. fitz_open L p = Returns doc \<and> doc_pages doc = replicate n (Returns []) \<longrightarrow>
      success (extract_with_pymupdf L p) \<and>
      strip (full_text (extract_with_pymupdf L p)) = []) \<and>
   (\<forall>pdf pgs. pdfplumber_open L p = Returns pdf \<and> pdf_pages pdf = Returns pgs \<and>
        pages_raise pgs = None \<and> (\<forall>pg \<in> set pgs. extract_text pg = Returns None) \<longrightarrow>
      success (extract_with_pdfplumber L p) \<and> error (extract_with_pdfplumber L p) = None \<and>
      strip (full_text (extract_with_pdfplumber L p)) = [])"
proof -
  let ?A = "extract_with_pymupdf L p" and ?B = "extract_with_pdfplumber L p"
  have a: "success ?A \<longrightarrow> full_text ?A = join nl (map ptext (pages ?A))"
    using pymupdf_success_join[of L p] by blast
  have b: "success ?B \<longrightarrow> full_text ?B = join nl (map ptext (pages ?B))"
    using pdfplumber_success_join[of L p] by blast
  have c: "success ?A \<and> map ptext (pages ?A) = ts \<and> full_text ?A = join nl ts"
    if "fitz_open L p = Returns doc" "doc_pages doc = map Returns ts" for doc ts
  proof -
    from that have "fitz_failure L p = None"
      by (simp add: fitz_failure_def first_raise_map_Returns)
    from pymupdf_failure_None[OF this] that show ?thesis
      by (auto simp: returned_map_Returns)
  qed
  have d: "success ?B \<and> map ptext (pages ?B) = map text_or_empty pgs \<and>
           full_text ?B = join nl (map text_or_empty pgs) \<and> error ?B = None"
    if "pdfplumber_open L p = Returns pdf" "pdf_pages pdf = Returns pgs"
       "pages_raise pgs = None" for pdf pgs
  proof -
    from that have "plumber_failure L p = None"
      by (simp add: plumber_failure_def)
    from pdfplumber_failure_None[OF this] that show ?thesis by auto
  qed
  have e: "success ?A \<and> strip (full_text ?A) = []"
    if "fitz_open L p = Returns doc" "doc_pages doc = replicate n (Returns [])" for doc n
  proof -
    from that(2) have "doc_pages doc = map Returns (replicate n [])" by simp
    from c[OF that(1) this] have "success ?A" "full_text ?A = join nl (replicate n [])"
      by simp_all
    then show ?thesis by (simp add: strip_join_empty)
  qed
  have f: "success ?B \<and> error ?B = None \<and> strip (full_text ?B) = []"
    if "pdfplumber_open L p = Returns pdf" "pdf_pages pdf = Returns pgs"
       "pages_raise pgs = None" "\<forall>pg \<in> set pgs. extract_text pg = Returns None" for pdf pgs
  proof -
    from that(4) have "\<forall>t \<in> set (map text_or_empty pgs). t = []"
      by (auto simp: text_or_empty_None)
    then have "strip (join nl (map text_or_empty pgs)) = []"
      by (rule strip_join_empty)
    with d[OF that(1-3)] show ?thesis by simp
  qed
  show ?thesis
    using a b c d e f text_or_empty_None text_or_empty_Some by blast
qed

theorem full_text_joins_page_texts_witness:
  "success (extract_with_pymupdf demo_libs good_path) \<and>
   map ptext (pages (extract_with_pymupdf demo_libs good_path)) = [ustr ''ab'', ustr ''c''] \<and>
   full_text (extract_with_pymupdf demo_libs good_path) = ustr ''ab'' @ [10] @ ustr ''c'' \<and>
   success (extract_with_pdfplumber demo_libs good_path) \<and>
   map ptext (pages (extract_with_pdfplumber demo_libs good_path)) = [ustr ''ab'', []] \<and>
   full_text (extract_with_pdfplumber demo_libs good_path) = ustr ''ab'' @ [10] \<and>
   success (extract_with_pymupdf demo_libs scan_path) \<and>
   strip (full_text (extract_with_pymupdf demo_libs scan_path)) = [] \<and>
   success (extract_with_pdfplumber demo_libs scan_path) \<and>
   error (extract_with_pdfplumber demo_libs scan_path) = None \<and>
   strip (full_text (extract_with_pdfplumber demo_libs scan_path)) = []"
proof -
  define pg1 :: plumber_page
    where "pg1 = \<lparr>extract_text = Returns (Some (ustr ''ab'')), extract_tables = Returns []\<rparr>"
  define pg2 :: plumber_page
    where "pg2 = \<lparr>extract_text = Returns None, extract_tables = Returns []\<rparr>"
  have o1: "fitz_open demo_libs good_path =
              Returns \<lparr>doc_pages = [Returns (ustr ''ab''), Returns (ustr ''c'')],
                       doc_close = Returns ()\<rparr>"
    by (simp add: demo_defs)
  have o2: "pdfplumber_open demo_libs good_path = Returns \<lparr>pdf_pages = Returns [pg1, pg2]\<rparr>"
    by (simp add: demo_defs pg1_def pg2_def)
  have o3: "fitz_open demo_libs scan_path =
              Returns \<lparr>doc_pages = [Returns [], Returns []], doc_close = Returns ()\<rparr>"
    by (simp add: demo_defs)
  have o4: "pdfplumber_open demo_libs scan_path = Returns \<lparr>pdf_pages = Returns [pg2, pg2]\<rparr>"
    by (simp add: demo_defs pg2_def)
  have r1: "pages_raise [pg1, pg2] = None" "pages_raise [pg2, pg2] = None"
    by (simp_all add: page_raise_def pg1_def pg2_def)
  have t: "text_or_empty pg1 = ustr ''ab''" "text_or_empty pg2 = []"
    by (simp_all add: text_or_empty_def pg1_def pg2_def)
  have n: "extract_text pg2 = Returns None"
    by (simp add: pg2_def)
  note g = full_text_joins_page_texts[of demo_libs good_path]
  note s = full_text_joins_page_texts[of demo_libs scan_path]
  note g3 = g[THEN conjunct2, THEN conjunct2, THEN conjunct1, rule_format]
  note g4 = g[THEN conjunct2, THEN conjunct2, THEN conjunct2, THEN conjunct1, rule_format]
  note s7 = s[THEN conjunct2, THEN conjunct2, THEN conjunct2, THEN conjunct2, THEN conjunct2,
              THEN conjunct2, THEN conjunct1, rule_format]
  note s8 = s[THEN conjunct2, THEN conjunct2, THEN conjunct2, THEN conjunct2, THEN conjunct2,
              THEN conjunct2, THEN conjunct2, rule_format]
  have "success (extract_with_pymupdf demo_libs good_path) \<and>
        map ptext (pages (extract_with_pymupdf demo_libs good_path)) = [ustr ''ab'', ustr ''c''] \<and>
        full_text (extract_with_pymupdf demo_libs good_path) = join nl [ustr ''ab'', ustr ''c'']"
    by (rule g3[where ts = "[ustr ''ab'', ustr ''c'']" and
                  doc = "\<lparr>doc_pages = [Returns (ustr ''ab''), Returns (ustr ''c'')],
                         doc_close = Returns ()\<rparr>"]) (simp add: o1)
  moreover have "success (extract_with_pdfplumber demo_libs good_path) \<and>
        map ptext (pages (extract_with_pdfplumber demo_libs good_path)) =
          map text_or_empty [pg1, pg2] \<and>
        full_text (extract_with_pdfplumber demo_libs good_path) =
          join nl (map text_or_empty [pg1, pg2])"
    by (rule g4[where pgs = "[pg1, pg2]" and pdf = "\<lparr>pdf_pages = Returns [pg1, pg2]\<rparr>"])
       (simp add: o2 r1 del: pages_raise.simps)
  moreover have "success (extract_with_pymupdf demo_libs scan_path) \<and>
        strip (full_text (extract_with_pymupdf demo_libs scan_path)) = []"
    by (rule s7[where n = 2 and
                  doc = "\<lparr>doc_pages = [Returns [], Returns []], doc_close = Returns ()\<rparr>"])
       (simp add: o3 numeral_2_eq_2)
  moreover have "success (extract_with_pdfplumber demo_libs scan_path) \<and>
        error (extract_with_pdfplumber demo_libs scan_path) = None \<and>
        strip (full_text (extract_with_pdfplumber demo_libs scan_path)) = []"
    by (rule s8[where pgs = "[pg2, pg2]" and pdf = "\<lparr>pdf_pages = Returns [pg2, pg2]\<rparr>"])
       (simp add: o4 r1 n del: pages_raise.simps)
  ultimately show ?thesis by (simp add: t nl_def)
qed

text \<open>
  C8. \<open>extract_with_ocr\<close> returns a result on every input, and a result without success
  carries an error. When importing \<open>pytesseract\<close> or \<open>pdf2image\<close> raises an \<open>ImportError\<close>,
  \<open>success\<close> is false and the error is the missing-library prefix followed by \<open>str(e)\<close>;
  when both imports succeed and \<open>convert_from_path\<close> raises, \<open>success\<close> is false and the
  error is the conversion-failure prefix followed by \<open>str(e)\<close>. No message of the first
  kind equals a message of the second kind.
\<close>

theorem ocr_failures_reported:
  "(\<forall>e. (import_pytesseract L = Raises e \<or>
         (import_pytesseract L = Returns () \<and> import_pdf2image L = Raises e)) \<and>
        exn_class e = ImportError \<longrightarrow>
      \<not> success (extract_with_ocr L p) \<and>
      error (extract_with_ocr L p) = Some (missing_library_prefix @ exn_str e)) \<and>
   (\<forall>e. import_pytesseract L = Returns () \<and> import_pdf2image L = Returns () \<and>
        convert_from_path L p = Raises e \<longrightarrow>
      \<not> success (extract_with_ocr L p) \<and>
      error (extract_with_ocr L p) = Some (convert_failed_prefix @ exn_str e)) \<and>
   (\<forall>s t. missing_library_prefix @ s \<noteq> convert_failed_prefix @ t) \<and>
   (success (extract_with_ocr L p) \<or> error (extract_with_ocr L p) \<noteq> None)"
proof (intro conjI allI impI)
  fix e
  assume a: "(import_pytesseract L = Raises e \<or>
         (import_pytesseract L = Returns () \<and> import_pdf2image L = Raises e)) \<and>
        exn_class e = ImportError"
  then have "extract_with_ocr L p = ocr_init\<lparr>error := Some (missing_library_prefix @ exn_str e)\<rparr>"
    by (intro ocr_import_error) auto
  then show "\<not> success (extract_with_ocr L p)"
    and "error (extract_with_ocr L p) = Some (missing_library_prefix @ exn_str e)"
    by (simp_all add: ocr_init_fields)
next
  fix e
  assume "import_pytesseract L = Returns () \<and> import_pdf2image L = Returns () \<and>
        convert_from_path L p = Raises e"
  then have "extract_with_ocr L p = ocr_init\<lparr>error := Some (convert_failed_prefix @ exn_str e)\<rparr>"
    by (intro ocr_convert_error) auto
  then show "\<not> success (extract_with_ocr L p)"
    and "error (extract_with_ocr L p) = Some (convert_failed_prefix @ exn_str e)"
    by (simp_all add: ocr_init_fields)
next
  fix s t
  show "missing_library_prefix @ s \<noteq> convert_failed_prefix @ t"
    by (rule prefixes_differ)
next
  show "success (extract_with_ocr L p) \<or> error (extract_with_ocr L p) \<noteq> None"
    using ocr_result[of L p] by blast
qed

theorem ocr_failures_reported_witness:
  "\<not> success (extract_with_ocr demo_libs good_path) \<and>
   error (extract_with_ocr demo_libs good_path) =
     Some (missing_library_prefix @ ustr ''No module named pytesseract'') \<and>
   \<not> success (extract_with_ocr (demo_libs\<lparr>import_pytesseract := Returns ()\<rparr>) good_path) \<and>
   error (extract_with_ocr (demo_libs\<lparr>import_pytesseract := Returns ()\<rparr>) good_path) =
     Some (convert_failed_prefix @ ustr ''Unable to get page count.'')"
proof -
  let ?L = "demo_libs\<lparr>import_pytesseract := Returns ()\<rparr>"
  note a = ocr_failures_reported[of demo_libs good_path, THEN conjunct1, rule_format,
             where e = "Exn ImportError (ustr ''No module named pytesseract'')"]
  note b = ocr_failures_reported[of ?L good_path, THEN conjunct2, THEN conjunct1, rule_format,
             where e = "Exn OtherException (ustr ''Unable to get page count.'')"]
  have "\<not> success (extract_with_ocr demo_libs good_path) \<and>
        error (extract_with_ocr demo_libs good_path) =
          Some (missing_library_prefix @
                exn_str (Exn ImportError (ustr ''No module named pytesseract'')))"
    by (rule a) (simp add: demo_libs_def)
  moreover have "\<not> success (extract_with_ocr ?L good_path) \<and>
        error (extract_with_ocr ?L good_path) =
          Some (convert_failed_prefix @
                exn_str (Exn OtherException (ustr ''Unable to get page count.'')))"
    by (rule b) (simp add: demo_libs_def)
  ultimately show ?thesis by simp
qed

text \<open>
  C9. A result of any of the three extractors that has no success has the empty full
  text. The row of the summary table for a file holds the file's name and the two text
  lengths, so a failed method stands in it with the count \<open>0\<close>. A successful extraction
  of a document none of whose pages has text gives the newlines that join the empty page
  texts, one less than there are pages: its count is the number of pages minus one, and
  its row is that of a failed method only for a document of at most one page.
\<close>

theorem failed_result_counts_zero:
  "(\<not> success (extract_with_pymupdf L p) \<longrightarrow> full_text (extract_with_pymupdf L p) = []) \<and>
   (\<not> success (extract_with_pdfplumber L p) \<longrightarrow> full_text (extract_with_pdfplumber L p) = []) \<and>
   (\<not> success (extract_with_ocr L p) \<longrightarrow> full_text (extract_with_ocr L p) = []) \<and>
   summary_row (n, fst (compare_methods L p w)) =
     table_row n (fmt_commas (length (full_text (extract_with_pymupdf L p))))
                 (fmt_commas (length (full_text (extract_with_pdfplumber L p)))) \<and>
   (\<not> success (extract_with_pymupdf L p) \<longrightarrow>
      summary_row (n, fst (compare_methods L p w)) =
        table_row n (ustr ''0'') (fmt_commas (length (full_text (extract_with_pdfplumber L p))))) \<and>
   (\<not> success (extract_with_pdfplumber L p) \<longrightarrow>
      summary_row (n, fst (compare_methods L p w)) =
        table_row n (fmt_commas (length (full_text (extract_with_pymupdf L p)))) (ustr ''0'')) \<and>
   (\<forall>doc. fitz_open L p = Returns doc \<and> fitz_failure L p = None \<and>
          (\<forall>t \<in> set (returned (doc_pages doc)). t = []) \<longrightarrow>
      success (extract_with_pymupdf L p) \<and>
      full_text (extract_with_pymupdf L p) = replicate (length (doc_pages doc) - 1) 10) \<and>
   (\<forall>pdf pgs. pdfplumber_open L p = Returns pdf \<and> pdf_pages pdf = Returns pgs \<and>
          plumber_failure L p = None \<and> (\<forall>pg \<in> set pgs. text_or_empty pg = []) \<longrightarrow>
      success (extract_with_pdfplumber L p) \<and>
      full_text (extract_with_pdfplumber L p) = replicate (length pgs - 1) 10) \<and>
   (\<forall>k. read_count (fmt_commas k) = k)"
proof -
  have a: "\<not> success (extract_with_pymupdf L p) \<longrightarrow> full_text (extract_with_pymupdf L p) = []"
    using pymupdf_failed_empty[of L p] by blast
  have b: "\<not> success (extract_with_pdfplumber L p) \<longrightarrow>
           full_text (extract_with_pdfplumber L p) = []"
    using pdfplumber_failed_empty[of L p] by blast
  have c: "\<not> success (extract_with_ocr L p) \<longrightarrow> full_text (extract_with_ocr L p) = []"
    using ocr_failed_empty[of L p] by blast
  note d = summary_row_compare_table[of n L p w]
  have z: "fmt_commas 0 = ustr ''0''"
    by (simp add: fmt_commas_0 ustr_def)
  have e: "\<not> success (extract_with_pymupdf L p) \<longrightarrow>
      summary_row (n, fst (compare_methods L p w)) =
        table_row n (ustr ''0'') (fmt_commas (length (full_text (extract_with_pdfplumber L p))))"
    using a d z by simp
  have f: "\<not> success (extract_with_pdfplumber L p) \<longrightarrow>
      summary_row (n, fst (compare_methods L p w)) =
        table_row n (fmt_commas (length (full_text (extract_with_pymupdf L p)))) (ustr ''0'')"
    using b d z by simp
  have g: "\<forall>doc. fitz_open L p = Returns doc \<and> fitz_failure L p = None \<and>
          (\<forall>t \<in> set (returned (doc_pages doc)). t = []) \<longrightarrow>
      success (extract_with_pymupdf L p) \<and>
      full_text (extract_with_pymupdf L p) = replicate (length (doc_pages doc) - 1) 10"
    using pymupdf_textless[of L p] by blast
  have h: "\<forall>pdf pgs. pdfplumber_open L p = Returns pdf \<and> pdf_pages pdf = Returns pgs \<and>
          plumber_failure L p = None \<and> (\<forall>pg \<in> set pgs. text_or_empty pg = []) \<longrightarrow>
      success (extract_with_pdfplumber L p) \<and>
      full_text (extract_with_pdfplumber L p) = replicate (length pgs - 1) 10"
    using pdfplumber_textless[of L p] by blast
  have i: "\<forall>k. read_count (fmt_commas k) = k"
    by (simp add: read_count_fmt_commas)
  show ?thesis
    by (intro conjI) (rule a b c d e f g h i)+
qed

theorem failed_result_counts_zero_witness:
  "\<not> success (extract_with_pymupdf demo_libs bad_path) \<and>
   full_text (extract_with_pymupdf demo_libs bad_path) = [] \<and>
   \<not> success (extract_with_pdfplumber broken_libs blank_path) \<and>
   full_text (extract_with_pdfplumber broken_libs blank_path) = [] \<and>
   \<not> success (extract_with_ocr demo_libs good_path) \<and>
   full_text (extract_with_ocr demo_libs good_path) = [] \<and>
   summary_row (ustr ''b.pdf'', fst (compare_methods demo_libs bad_path demo_world)) =
     ustr ''b.pdf'' @ replicate 45 32 @ ustr '' '' @ replicate 11 32 @ ustr ''0'' @
     ustr '' '' @ replicate 11 32 @ ustr ''3'' @ nl \<and>
   success (extract_with_pymupdf demo_libs blank_path) \<and>
   full_text (extract_with_pymupdf demo_libs blank_path) = [] \<and>
   success (extract_with_pdfplumber demo_libs blank_path) \<and>
   full_text (extract_with_pdfplumber demo_libs blank_path) = [] \<and>
   summary_row (ustr ''blank.pdf'', fst (compare_methods demo_libs blank_path demo_world)) =
   summary_row (ustr ''blank.pdf'', fst (compare_methods broken_libs blank_path demo_world)) \<and>
   read_count (fmt_commas 1234567) = 1234567"
proof -
  let ?A = "extract_with_pymupdf demo_libs bad_path"
  note t = failed_result_counts_zero[of demo_libs bad_path "ustr ''b.pdf''" demo_world]
  note u = failed_result_counts_zero[of demo_libs blank_path "ustr ''blank.pdf''" demo_world]
  note v = failed_result_counts_zero[of broken_libs blank_path "ustr ''blank.pdf''" demo_world]
  note o = failed_result_counts_zero[of demo_libs good_path "ustr ''a.pdf''" demo_world]
  have f: "\<not> success ?A"
    by (simp add: demo_pymupdf_bad pymupdf_init_def)
  from t f have e: "full_text ?A = []" by blast
  have l: "fmt_commas (length (full_text (extract_with_pdfplumber demo_libs bad_path))) = ustr ''3''"
    by (simp add: demo_lengths fmt_commas_def digits.simps group3.simps ustr_def)
  from t f have
    "summary_row (ustr ''b.pdf'', fst (compare_methods demo_libs bad_path demo_world)) =
       table_row (ustr ''b.pdf'') (ustr ''0'')
         (fmt_commas (length (full_text (extract_with_pdfplumber demo_libs bad_path))))"
    by blast
  then have r: "summary_row (ustr ''b.pdf'', fst (compare_methods demo_libs bad_path demo_world)) =
       ustr ''b.pdf'' @ replicate 45 32 @ ustr '' '' @ replicate 11 32 @ ustr ''0'' @
       ustr '' '' @ replicate 11 32 @ ustr ''3'' @ nl"
    unfolding l by (simp add: table_row_def ustr_def nl_def)
  have bf: "\<not> success (extract_with_pdfplumber broken_libs blank_path)"
    "\<not> success (extract_with_pymupdf broken_libs blank_path)"
    by (rule demo_broken)+
  from v bf(1) have be: "full_text (extract_with_pdfplumber broken_libs blank_path) = []"
    by blast
  have oi: "import_pytesseract demo_libs =
              Raises (Exn ImportError (ustr ''No module named pytesseract''))"
    by (simp add: demo_libs_def)
  have "extract_with_ocr demo_libs good_path =
          ocr_init\<lparr>error := Some (missing_library_prefix @
            exn_str (Exn ImportError (ustr ''No module named pytesseract'')))\<rparr>"
    by (rule ocr_import_error) (simp_all add: oi)
  then have ofl: "\<not> success (extract_with_ocr demo_libs good_path)"
    by (simp add: ocr_init_def)
  from o ofl have oe: "full_text (extract_with_ocr demo_libs good_path) = []" by blast
  have b1: "success (extract_with_pymupdf demo_libs blank_path) \<and>
      full_text (extract_with_pymupdf demo_libs blank_path) =
        replicate (length (doc_pages \<lparr>doc_pages = [Returns []], doc_close = Returns ()\<rparr>) - 1) 10"
    by (rule u[THEN conjunct2, THEN conjunct2, THEN conjunct2, THEN conjunct2, THEN conjunct2,
               THEN conjunct2, THEN conjunct1, rule_format])
       (simp add: demo_blank)
  have b2: "success (extract_with_pdfplumber demo_libs blank_path) \<and>
      full_text (extract_with_pdfplumber demo_libs blank_path) =
        replicate (length [\<lparr>extract_text = Returns None, extract_tables = Returns []\<rparr>] - 1) 10"
    by (rule u[THEN conjunct2, THEN conjunct2, THEN conjunct2, THEN conjunct2, THEN conjunct2,
               THEN conjunct2, THEN conjunct2, THEN conjunct1, rule_format,
               where pdf = "\<lparr>pdf_pages = Returns
                 [\<lparr>extract_text = Returns None, extract_tables = Returns []\<rparr>]\<rparr>"])
       (simp add: demo_blank text_or_empty_def)
  from b1 b2 have bt: "full_text (extract_with_pymupdf demo_libs blank_path) = []"
    "full_text (extract_with_pdfplumber demo_libs blank_path) = []"
    by simp_all
  have z: "fmt_commas 0 = ustr ''0''"
    by (simp add: fmt_commas_0 ustr_def)
  from u have "summary_row (ustr ''blank.pdf'', fst (compare_methods demo_libs blank_path demo_world)) =
      table_row (ustr ''blank.pdf'') (ustr ''0'') (ustr ''0'')"
    by (simp add: bt z)
  moreover from v bf(2) have
    "summary_row (ustr ''blank.pdf'', fst (compare_methods broken_libs blank_path demo_world)) =
      table_row (ustr ''blank.pdf'') (ustr ''0'')
        (fmt_commas (length (full_text (extract_with_pdfplumber broken_libs blank_path))))"
    by blast
  ultimately have same:
    "summary_row (ustr ''blank.pdf'', fst (compare_methods demo_libs blank_path demo_world)) =
     summary_row (ustr ''blank.pdf'', fst (compare_methods broken_libs blank_path demo_world))"
    by (simp add: be z)
  from t have rc: "read_count (fmt_commas 1234567) = 1234567" by blast
  from f e bf(1) be ofl oe r b1 b2 bt same rc show ?thesis by blast
qed

text \<open>
  The claim as it was stated fails for a successful extraction of an empty text layer of
  more than one page: both libraries read the two pages of \<open>scan.pdf\<close>, neither of which
  has text, and the full text is the newline between the two empty page texts. The row
  of the file shows the count 1 for both methods where the row of the same file, when
  neither library can open it, shows 0.
\<close>

theorem textless_pages_counted:
  "success (extract_with_pymupdf demo_libs scan_path) \<and>
   success (extract_with_pdfplumber demo_libs scan_path) \<and>
   strip (full_text (extract_with_pymupdf demo_libs scan_path)) = [] \<and>
   strip (full_text (extract_with_pdfplumber demo_libs scan_path)) = [] \<and>
   \<not> success (extract_with_pymupdf broken_libs scan_path) \<and>
   \<not> success (extract_with_pdfplumber broken_libs scan_path) \<and>
   summary_row (ustr ''scan.pdf'', fst (compare_methods demo_libs scan_path demo_world)) =
     ustr ''scan.pdf'' @ replicate 42 32 @ ustr '' '' @ replicate 11 32 @ ustr ''1'' @
     ustr '' '' @ replicate 11 32 @ ustr ''1'' @ nl \<and>
   summary_row (ustr ''scan.pdf'', fst (compare_methods broken_libs scan_path demo_world)) =
     ustr ''scan.pdf'' @ replicate 42 32 @ ustr '' '' @ replicate 11 32 @ ustr ''0'' @
     ustr '' '' @ replicate 11 32 @ ustr ''0'' @ nl \<and>
   summary_row (ustr ''scan.pdf'', fst (compare_methods demo_libs scan_path demo_world)) \<noteq>
   summary_row (ustr ''scan.pdf'', fst (compare_methods broken_libs scan_path demo_world))"
proof -
  have s: "strip nl = []"
    by (simp add: strip_def nl_def py_isspace_def)
  have n1: "fmt_commas (length nl) = ustr ''1''" "fmt_commas (length ([] :: pystr)) = ustr ''0''"
    by (simp_all add: fmt_commas_def digits.simps group3.simps ustr_def nl_def)
  have r1: "summary_row (ustr ''scan.pdf'', fst (compare_methods demo_libs scan_path demo_world)) =
     ustr ''scan.pdf'' @ replicate 42 32 @ ustr '' '' @ replicate 11 32 @ ustr ''1'' @
     ustr '' '' @ replicate 11 32 @ ustr ''1'' @ nl"
    unfolding summary_row_compare_table demo_scan_texts n1
    by (simp add: table_row_def ustr_def nl_def)
  have r0: "summary_row (ustr ''scan.pdf'', fst (compare_methods broken_libs scan_path demo_world)) =
     ustr ''scan.pdf'' @ replicate 42 32 @ ustr '' '' @ replicate 11 32 @ ustr ''0'' @
     ustr '' '' @ replicate 11 32 @ ustr ''0'' @ nl"
    unfolding summary_row_compare_table demo_broken n1
    by (simp add: table_row_def ustr_def nl_def)
  have ne: "summary_row (ustr ''scan.pdf'', fst (compare_methods demo_libs scan_path demo_world)) \<noteq>
   summary_row (ustr ''scan.pdf'', fst (compare_methods broken_libs scan_path demo_world))"
    unfolding r1 r0 by (simp add: ustr_def)
  show ?thesis
    using demo_scan_texts(1,3) demo_broken(1,3)[of scan_path] s r1 r0 ne
    by (simp only: demo_scan_texts(2,4) simp_thms)
qed

text \<open>
  C10. In the result of each of the three extractors the \<open>i\<close>-th entry of \<open>pages\<close>,
  counted from 0, has the page number \<open>i + 1\<close>, and its \<open>char_count\<close> is the length of
  its text: the page numbers are consecutive from 1, in document order. This also holds
  for the entries a failed extraction leaves behind.
\<close>

theorem page_entries_numbered:
  assumes "r \<in> {extract_with_pymupdf L p, extract_with_pdfplumber L p, extract_with_ocr L p}"
    and "i < length (pages r)"
  shows "page (pages r ! i) = i + 1 \<and> char_count (pages r ! i) = length (ptext (pages r ! i))"
proof -
  have "numbered (pages (extract_with_ocr L p))"
    using ocr_result[of L p] by blast
  with assms(1) have "numbered (pages r)"
    using pymupdf_numbered[of L p] pdfplumber_numbered[of L p] by auto
  with assms(2) show ?thesis unfolding numbered_def by blast
qed

theorem page_entries_numbered_witness:
  "1 < length (pages (extract_with_pymupdf demo_libs good_path)) \<and>
   page (pages (extract_with_pymupdf demo_libs good_path) ! 1) = 2 \<and>
   char_count (pages (extract_with_pymupdf demo_libs good_path) ! 1) = 1 \<and>
   ptext (pages (extract_with_pymupdf demo_libs good_path) ! 1) = ustr ''c''"
proof -
  have len: "1 < length (pages (extract_with_pymupdf demo_libs good_path))"
    by (simp add: demo_pymupdf_good)
  have tx: "ptext (pages (extract_with_pymupdf demo_libs good_path) ! 1) = ustr ''c''"
    by (simp add: demo_pymupdf_good)
  have "page (pages (extract_with_pymupdf demo_libs good_path) ! 1) = 1 + 1 \<and>
        char_count (pages (extract_with_pymupdf demo_libs good_path) ! 1) =
          length (ptext (pages (extract_with_pymupdf demo_libs good_path) ! 1))"
    by (rule page_entries_numbered[where L = demo_libs and p = good_path, OF _ len]) simp
  with len tx show ?thesis by (simp add: ustr_def)
qed

end
